theory Spec2Isabelle
  imports
    Complex_Main
    "HOL-Library.Word"
    "HOL-Library.AList"
    "HOL-Library.Char_ord"
    "HOL-Library.List_Lexorder"
begin

unbundle bit_operations_syntax

section \<open>Secure chat relay (app.py): values, errors and Python helpers\<close>

text \<open>
  The server receives JSON from its Socket.IO clients. A Python value that can
  come out of the JSON decoder is one of the following. A \<open>str\<close> is a list of
  characters; each \<^typ>\<open>char\<close> stands for one code point below 256, so
  \<open>length\<close> is Python's \<open>len\<close> on such strings. A \<open>dict\<close> keeps its
  insertion order, so it is an association list whose keys are strings.
\<close>

datatype pyval =
    PyNone
  | PyBool bool
  | PyInt int
  | PyFloat real
  | PyStr string
  | PyList "pyval list"
  | PyDict "(string \<times> pyval) list"

type_synonym pydict = "(string \<times> pyval) list"

text \<open>
  The exceptions the handlers can raise. None of them is caught in app.py:
  a raised exception leaves the handler at once. The last two belong to
  scripts/decrypt_logs.py, which catches none either: a missing key of an
  entry, and the cipher's authentication failure.
\<close>

datatype pyerr = AttributeError | TypeError | ValueError | BinasciiError | KeyError | InvalidTag

type_synonym byte = "8 word"
type_synonym u32 = "32 word"

text \<open>Python's truth test, as \<open>not x\<close> and \<open>x or y\<close> use it.\<close>

fun truthy :: "pyval \<Rightarrow> bool" where
  "truthy PyNone = False"
| "truthy (PyBool b) = b"
| "truthy (PyInt i) = (i \<noteq> 0)"
| "truthy (PyFloat r) = (r \<noteq> 0)"
| "truthy (PyStr s) = (s \<noteq> [])"
| "truthy (PyList xs) = (xs \<noteq> [])"
| "truthy (PyDict kvs) = (kvs \<noteq> [])"

text \<open>\<open>data.get(key)\<close>: the entry, or \<open>None\<close> when the key is absent.\<close>

definition py_get :: "pydict \<Rightarrow> string \<Rightarrow> pyval" where
  "py_get d k = (case map_of d k of None \<Rightarrow> PyNone | Some v \<Rightarrow> v)"

text \<open>\<open>x or y\<close>.\<close>

definition py_or :: "pyval \<Rightarrow> pyval \<Rightarrow> pyval" where
  "py_or x y = (if truthy x then x else y)"

text \<open>
  \<open>str.isspace\<close> on one character, for code points below 256: the white space
  that \<open>str.strip()\<close> removes.
\<close>

definition py_isspace :: "char \<Rightarrow> bool" where
  "py_isspace c =
     (let n = (of_char c :: nat)
      in (9 \<le> n \<and> n \<le> 13) \<or> (28 \<le> n \<and> n \<le> 32) \<or> n = 133 \<or> n = 160)"

definition py_strip :: "string \<Rightarrow> string" where
  "py_strip s = rev (dropWhile py_isspace (rev (dropWhile py_isspace s)))"

text \<open>\<open>x.strip()\<close> on any value: only a \<open>str\<close> has the method.\<close>

fun strip_method :: "pyval \<Rightarrow> pyerr + string" where
  "strip_method (PyStr s) = Inr (py_strip s)"
| "strip_method _ = Inl AttributeError"

text \<open>\<open>str.lower\<close> for code points below 256.\<close>

definition py_lower_char :: "char \<Rightarrow> char" where
  "py_lower_char c =
     (let n = (of_char c :: nat)
      in if (65 \<le> n \<and> n \<le> 90) \<or> (192 \<le> n \<and> n \<le> 222 \<and> n \<noteq> 215)
         then char_of (n + 32) else c)"

definition py_lower :: "string \<Rightarrow> string" where
  "py_lower s = map py_lower_char s"

text \<open>\<open>sep.join(parts)\<close>.\<close>

fun py_join :: "string \<Rightarrow> string list \<Rightarrow> string" where
  "py_join sep [] = []"
| "py_join sep [x] = x"
| "py_join sep (x # y # ys) = x @ sep @ py_join sep (y # ys)"

section \<open>Base64 (the standard library's codec, as app.py calls it)\<close>

text \<open>
  \<open>binascii\<close>'s table: the six-bit number of an alphabet character, nothing for
  any other character.
\<close>

definition table_a2b_base64 :: "char \<Rightarrow> byte option" where
  "table_a2b_base64 c =
     (let n = (of_char c :: nat)
      in if 65 \<le> n \<and> n \<le> 90 then Some (of_nat (n - 65))
         else if 97 \<le> n \<and> n \<le> 122 then Some (of_nat (n - 71))
         else if 48 \<le> n \<and> n \<le> 57 then Some (of_nat (n + 4))
         else if n = 43 then Some 62
         else if n = 47 then Some 63
         else None)"

text \<open>
  \<open>binascii.a2b_base64\<close> with \<open>strict_mode\<close> off, which is what
  \<open>base64.b64decode(s)\<close> runs when \<open>validate\<close> keeps its default: a
  character outside the alphabet is skipped, a pad \<open>=\<close> ends the input once
  it completes a quad that holds at least two data characters, and the input
  must not end inside a quad. The arguments after the text are the loop's
  variables \<open>quad_pos\<close>, \<open>leftchar\<close>, \<open>pads\<close> and the bytes written so far.
\<close>

fun a2b_base64 :: "string \<Rightarrow> nat \<Rightarrow> byte \<Rightarrow> nat \<Rightarrow> byte list \<Rightarrow> pyerr + byte list" where
  "a2b_base64 [] quad_pos leftchar pads out =
     (if quad_pos \<noteq> 0 then Inl BinasciiError else Inr out)"
| "a2b_base64 (c # cs) quad_pos leftchar pads out =
     (if c = CHR ''='' then
        (if 2 \<le> quad_pos \<and> 4 \<le> quad_pos + (pads + 1) then Inr out
         else a2b_base64 cs quad_pos leftchar (if 2 \<le> quad_pos then pads + 1 else pads) out)
      else
        (case table_a2b_base64 c of
           None \<Rightarrow> a2b_base64 cs quad_pos leftchar pads out
         | Some this_ch \<Rightarrow>
             (if quad_pos = 0 then a2b_base64 cs 1 this_ch 0 out
              else if quad_pos = 1 then
                a2b_base64 cs 2 (this_ch AND 15) 0
                  (out @ [push_bit 2 leftchar OR drop_bit 4 this_ch])
              else if quad_pos = 2 then
                a2b_base64 cs 3 (this_ch AND 3) 0
                  (out @ [push_bit 4 leftchar OR drop_bit 2 this_ch])
              else
                a2b_base64 cs 0 0 0 (out @ [push_bit 6 leftchar OR this_ch]))))"

text \<open>
  \<open>base64.b64decode(s)\<close>: a \<open>str\<close> is first encoded as ASCII (a
  \<open>ValueError\<close> when a character is not ASCII); a value that is neither text
  nor bytes is a \<open>TypeError\<close>.
\<close>

fun b64decode :: "pyval \<Rightarrow> pyerr + byte list" where
  "b64decode (PyStr s) =
     (if list_ex (\<lambda>c. 128 \<le> (of_char c :: nat)) s then Inl ValueError
      else a2b_base64 s 0 0 0 [])"
| "b64decode _ = Inl TypeError"

text \<open>\<open>base64.b64encode(bs).decode()\<close>.\<close>

definition table_b2a_base64 :: "byte \<Rightarrow> char" where
  "table_b2a_base64 v =
     (let n = unat v
      in if n < 26 then char_of (n + 65)
         else if n < 52 then char_of (n + 71)
         else if n < 62 then char_of (n - 4)
         else if n = 62 then CHR ''+'' else CHR ''/'')"

fun b64encode :: "byte list \<Rightarrow> string" where
  "b64encode [] = []"
| "b64encode [a] =
     [table_b2a_base64 (drop_bit 2 a),
      table_b2a_base64 (push_bit 4 (a AND 3)),
      CHR ''='', CHR ''='']"
| "b64encode [a, b] =
     [table_b2a_base64 (drop_bit 2 a),
      table_b2a_base64 (push_bit 4 (a AND 3) OR drop_bit 4 b),
      table_b2a_base64 (push_bit 2 (b AND 15)),
      CHR ''='']"
| "b64encode (a # b # c # rest) =
     [table_b2a_base64 (drop_bit 2 a),
      table_b2a_base64 (push_bit 4 (a AND 3) OR drop_bit 4 b),
      table_b2a_base64 (push_bit 2 (b AND 15) OR drop_bit 6 c),
      table_b2a_base64 (c AND 63)] @ b64encode rest"

section \<open>SHA-256 (\<open>hashlib.sha256\<close>, FIPS 180-4)\<close>

text \<open>The round constants and the initial hash value, written in decimal.\<close>

definition sha256_k :: "u32 list" where
  "sha256_k =
    [1116352408, 1899447441, 3049323471, 3921009573, 961987163, 1508970993,
     2453635748, 2870763221, 3624381080, 310598401, 607225278, 1426881987,
     1925078388, 2162078206, 2614888103, 3248222580, 3835390401, 4022224774,
     264347078, 604807628, 770255983, 1249150122, 1555081692, 1996064986,
     2554220882, 2821834349, 2952996808, 3210313671, 3336571891, 3584528711,
     113926993, 338241895, 666307205, 773529912, 1294757372, 1396182291,
     1695183700, 1986661051, 2177026350, 2456956037, 2730485921, 2820302411,
     3259730800, 3345764771, 3516065817, 3600352804, 4094571909, 275423344,
     430227734, 506948616, 659060556, 883997877, 958139571, 1322822218,
     1537002063, 1747873779, 1955562222, 2024104815, 2227730452, 2361852424,
     2428436474, 2756734187, 3204031479, 3329325298]"

type_synonym sha_state = "u32 \<times> u32 \<times> u32 \<times> u32 \<times> u32 \<times> u32 \<times> u32 \<times> u32"

definition sha256_init :: sha_state where
  "sha256_init =
    (1779033703, 3144134277, 1013904242, 2773480762,
     1359893119, 2600822924, 528734635, 1541459225)"

definition be_bytes32 :: "u32 \<Rightarrow> byte list" where
  "be_bytes32 w = [ucast (drop_bit 24 w), ucast (drop_bit 16 w), ucast (drop_bit 8 w), ucast w]"

definition be_bytes64 :: "64 word \<Rightarrow> byte list" where
  "be_bytes64 w = map (\<lambda>i. ucast (drop_bit (8 * (7 - i)) w)) [0..<8]"

definition sha256_pad :: "byte list \<Rightarrow> byte list" where
  "sha256_pad m =
     m @ [0x80] @ replicate ((119 - length m mod 64) mod 64) 0 @ be_bytes64 (of_nat (8 * length m))"

fun be_words :: "byte list \<Rightarrow> u32 list" where
  "be_words (a # b # c # d # rest) =
     (push_bit 24 (ucast a) OR push_bit 16 (ucast b) OR push_bit 8 (ucast c) OR ucast d)
       # be_words rest"
| "be_words _ = []"

definition small_sigma0 :: "u32 \<Rightarrow> u32" where
  "small_sigma0 x = word_rotr 7 x XOR word_rotr 18 x XOR drop_bit 3 x"

definition small_sigma1 :: "u32 \<Rightarrow> u32" where
  "small_sigma1 x = word_rotr 17 x XOR word_rotr 19 x XOR drop_bit 10 x"

definition big_sigma0 :: "u32 \<Rightarrow> u32" where
  "big_sigma0 x = word_rotr 2 x XOR word_rotr 13 x XOR word_rotr 22 x"

definition big_sigma1 :: "u32 \<Rightarrow> u32" where
  "big_sigma1 x = word_rotr 6 x XOR word_rotr 11 x XOR word_rotr 25 x"

text \<open>The message schedule: sixteen words of the block, extended to sixty-four.\<close>

primrec sha256_extend :: "nat \<Rightarrow> u32 list \<Rightarrow> u32 list" where
  "sha256_extend 0 w = w"
| "sha256_extend (Suc n) w =
     sha256_extend n
       (w @ [small_sigma1 (w ! (length w - 2)) + w ! (length w - 7)
             + small_sigma0 (w ! (length w - 15)) + w ! (length w - 16)])"

definition sha256_round :: "u32 \<times> u32 \<Rightarrow> sha_state \<Rightarrow> sha_state" where
  "sha256_round kw st =
     (case st of (a, b, c, d, e, f, g, h) \<Rightarrow>
        let t1 = h + big_sigma1 e + ((e AND f) XOR (NOT e AND g)) + fst kw + snd kw;
            t2 = big_sigma0 a + ((a AND b) XOR (a AND c) XOR (b AND c))
        in (t1 + t2, a, b, c, d + t1, e, f, g))"

definition sha256_compress :: "byte list \<Rightarrow> sha_state \<Rightarrow> sha_state" where
  "sha256_compress block st =
     (case fold sha256_round (zip sha256_k (sha256_extend 48 (be_words block))) st of
        (a, b, c, d, e, f, g, h) \<Rightarrow>
          (case st of (a0, b0, c0, d0, e0, f0, g0, h0) \<Rightarrow>
             (a0 + a, b0 + b, c0 + c, d0 + d, e0 + e, f0 + f, g0 + g, h0 + h)))"

fun sha256_blocks :: "nat \<Rightarrow> byte list \<Rightarrow> sha_state \<Rightarrow> sha_state" where
  "sha256_blocks 0 bs st = st"
| "sha256_blocks (Suc n) bs st = sha256_blocks n (drop 64 bs) (sha256_compress (take 64 bs) st)"

definition sha256 :: "byte list \<Rightarrow> byte list" where
  "sha256 m =
     (case sha256_blocks (length (sha256_pad m) div 64) (sha256_pad m) sha256_init of
        (a, b, c, d, e, f, g, h) \<Rightarrow> concat (map be_bytes32 [a, b, c, d, e, f, g, h]))"

text \<open>\<open>.hexdigest()\<close>: two lowercase hexadecimal digits for every byte.\<close>

definition hex_digit :: "nat \<Rightarrow> char" where
  "hex_digit n = (if n < 10 then char_of (n + 48) else char_of (n + 87))"

definition hexdigest :: "byte list \<Rightarrow> string" where
  "hexdigest bs = concat (map (\<lambda>b. [hex_digit (unat b div 16), hex_digit (unat b mod 16)]) bs)"

section \<open>Identity fingerprint\<close>

text \<open>
  \<open>digest[i : i + 2] for i in range(0, len(digest), 2)\<close>: the slices of the
  comprehension, in order.
\<close>

definition digest_slices :: "string \<Rightarrow> string list" where
  "digest_slices digest =
     map (\<lambda>j. take 2 (drop (2 * j) digest)) [0..<(length digest + 1) div 2]"

definition compute_fingerprint :: "pyval \<Rightarrow> pyerr + string" where
  "compute_fingerprint public_key_b64 =
     (case b64decode public_key_b64 of
        Inl e \<Rightarrow> Inl e
      | Inr der \<Rightarrow> Inr (py_join '':'' (digest_slices (hexdigest (sha256 der)))))"

section \<open>Server state and emitted events\<close>

text \<open>
  One entry of \<open>participants\<close>: the dict that \<open>handle_register\<close> stores
  under the username. \<open>joined_at\<close> is the reading of \<open>time.time()\<close>.
\<close>

record member =
  public_key :: pyval
  fingerprint :: string
  sid :: string
  joined_at :: real

text \<open>One entry of \<open>logs\<close>: both fields are base64 text.\<close>

record log_entry =
  nonce :: string
  ciphertext :: string

text \<open>
  Who an emitted event goes to. \<open>emit(...)\<close> inside a handler addresses the
  calling connection; \<open>socketio.emit(...)\<close> addresses every connection, and
  with \<open>include_self=False\<close> every connection but the calling one.
\<close>

datatype target = To string | Everyone | EveryoneBut string

fun receives :: "target \<Rightarrow> string \<Rightarrow> bool" where
  "receives (To s) c = (c = s)"
| "receives Everyone c = True"
| "receives (EveryoneBut s) c = (c \<noteq> s)"

record event =
  ev_target :: target
  ev_name :: string
  ev_payload :: pyval

text \<open>
  The module's globals \<open>participants\<close>, \<open>sessions\<close> and \<open>logs\<close>, and the
  events emitted so far, oldest first. Both dicts keep their insertion order
  (the snapshot's sort is stable): \<open>d[k] = v\<close> is \<open>AList.update\<close>, which replaces
  in place or appends, and \<open>d.pop(k, None)\<close> is a lookup and \<open>AList.delete\<close>.
\<close>

record server =
  participants :: "(string \<times> member) list"
  sessions :: "(string \<times> string) list"
  logs :: "log_entry list"
  emitted :: "event list"

definition init_server :: server where
  "init_server = \<lparr>participants = [], sessions = [], logs = [], emitted = []\<rparr>"

definition emit :: "string \<Rightarrow> string \<Rightarrow> pyval \<Rightarrow> server \<Rightarrow> server" where
  "emit request_sid ev payload s =
     s\<lparr>emitted := emitted s @ [\<lparr>ev_target = To request_sid, ev_name = ev, ev_payload = payload\<rparr>]\<rparr>"

definition socketio_emit :: "string \<Rightarrow> string \<Rightarrow> pyval \<Rightarrow> bool \<Rightarrow> server \<Rightarrow> server" where
  "socketio_emit request_sid ev payload include_self s =
     s\<lparr>emitted := emitted s @
        [\<lparr>ev_target = (if include_self then Everyone else EveryoneBut request_sid),
          ev_name = ev, ev_payload = payload\<rparr>]\<rparr>"

section \<open>Presence: snapshot and removal\<close>

definition participant_snapshot :: "(string \<times> member) list \<Rightarrow> pyval" where
  "participant_snapshot ps =
     PyList (map (\<lambda>(username, info).
                    PyDict [(''username'', PyStr username),
                            (''fingerprint'', PyStr (fingerprint info)),
                            (''public_key'', public_key info)])
                 (sort_key (\<lambda>item. py_lower (fst item)) ps))"

definition broadcast_participants :: "string \<Rightarrow> server \<Rightarrow> server" where
  "broadcast_participants request_sid s =
     socketio_emit request_sid ''participants''
       (PyDict [(''participants'', participant_snapshot (participants s))]) True s"

text \<open>
  \<open>remove_participant(sid)\<close>. \<open>sessions.pop(sid, None)\<close> removes the binding
  whatever follows; an empty username is falsy, so \<open>not username\<close> holds for
  a missing binding and for an empty name. A stored \<open>info\<close> dict has four
  keys and is never falsy, so \<open>not info\<close> is the missing entry.
\<close>

definition remove_participant :: "string \<Rightarrow> server \<Rightarrow> server" where
  "remove_participant request_sid s =
     (case map_of (sessions s) request_sid of
        None \<Rightarrow> s
      | Some username \<Rightarrow>
          let s1 = s\<lparr>sessions := AList.delete request_sid (sessions s)\<rparr>
          in if username = [] then s1
             else
               (case map_of (participants s1) username of
                  None \<Rightarrow> s1
                | Some info \<Rightarrow>
                    let s2 = s1\<lparr>participants := AList.delete username (participants s1)\<rparr>;
                        s3 = socketio_emit request_sid ''user_left''
                               (PyDict [(''username'', PyStr username),
                                        (''fingerprint'', PyStr (fingerprint info))])
                               False s2
                    in broadcast_participants request_sid s3))"

section \<open>Registration\<close>

text \<open>
  \<open>handle_register(data)\<close> for the connection \<open>request.sid\<close>; \<open>now\<close> is
  the reading of \<open>time.time()\<close>. The result is the exception that left the
  handler, if any, and the server state at that moment.
\<close>

definition handle_register :: "real \<Rightarrow> string \<Rightarrow> pydict \<Rightarrow> server \<Rightarrow> pyerr option \<times> server" where
  "handle_register now request_sid data s =
     (case strip_method (py_or (py_get data ''username'') (PyStr [])) of
        Inl e \<Rightarrow> (Some e, s)
      | Inr username \<Rightarrow>
          let pk = py_get data ''public_key''
          in if username = [] \<or> \<not> truthy pk then
               (None, emit request_sid ''register_error''
                        (PyDict [(''message'', PyStr ''Username and public key are required.'')]) s)
             else if length username < 2 then
               (None, emit request_sid ''register_error''
                        (PyDict [(''message'', PyStr ''Username must be at least 2 characters.'')]) s)
             else if (case map_of (participants s) username of
                        None \<Rightarrow> False
                      | Some existing \<Rightarrow> sid existing \<noteq> request_sid) then
               (None, emit request_sid ''register_error''
                        (PyDict [(''message'', PyStr ''That username is already in use.'')]) s)
             else
               (case compute_fingerprint pk of
                  Inl e \<Rightarrow> (Some e, s)
                | Inr fp \<Rightarrow>
                    let s1 = remove_participant request_sid s;
                        s2 = s1\<lparr>participants :=
                                  AList.update username
                                    \<lparr>public_key = pk, fingerprint = fp,
                                      sid = request_sid, joined_at = now\<rparr>
                                    (participants s1),
                                sessions := AList.update request_sid username (sessions s1)\<rparr>;
                        s3 = emit request_sid ''register_success''
                               (PyDict [(''username'', PyStr username),
                                        (''fingerprint'', PyStr fp),
                                        (''participants'', participant_snapshot (participants s2))])
                               s2;
                        s4 = socketio_emit request_sid ''user_joined''
                               (PyDict [(''username'', PyStr username),
                                        (''fingerprint'', PyStr fp)])
                               False s3
                    in (None, broadcast_participants request_sid s4)))"

section \<open>Encrypted audit log\<close>

text \<open>
  The payload of a relayed message is a dict object that \<open>store_encrypted_log\<close>
  receives by reference and that is emitted afterwards, so the dict objects of
  one relay live in a store: an address is an index into the list.
  \<open>dict(payload)\<close> allocates a new object with the same entries.
\<close>

type_synonym heap = "pydict list"

definition new_dict :: "pydict \<Rightarrow> heap \<Rightarrow> nat \<times> heap" where
  "new_dict d h = (length h, h @ [d])"

text \<open>\<open>d.setdefault(k, v)\<close> on the entries of a dict.\<close>

definition setdefault :: "pydict \<Rightarrow> string \<Rightarrow> pyval \<Rightarrow> pydict" where
  "setdefault d k v = (case map_of d k of None \<Rightarrow> d @ [(k, v)] | Some _ \<Rightarrow> d)"

text \<open>
  \<open>os.urandom(n)\<close>: \<open>n\<close> bytes of the system's random source, \<open>src i\<close> being
  the byte it delivers at position \<open>i\<close> of this call.
\<close>

definition os_urandom :: "(nat \<Rightarrow> byte) \<Rightarrow> nat \<Rightarrow> byte list" where
  "os_urandom src n = map src [0..<n]"

text \<open>
  \<open>store_encrypted_log(payload)\<close>. \<open>json_dumps\<close> stands for
  \<open>json.dumps(_, separators=(",", ":")).encode()\<close> and \<open>encrypt\<close> for
  \<open>log_cipher.encrypt(nonce, _, associated_data=None)\<close>, both library code;
  \<open>stored_at\<close> is the formatted clock reading and \<open>src\<close> what the random
  source delivers during the call.
\<close>

definition store_encrypted_log ::
  "(pydict \<Rightarrow> byte list) \<Rightarrow> (byte list \<Rightarrow> byte list \<Rightarrow> byte list) \<Rightarrow> string \<Rightarrow> (nat \<Rightarrow> byte) \<Rightarrow>
   nat \<Rightarrow> heap \<Rightarrow> log_entry list \<Rightarrow> heap \<times> log_entry list" where
  "store_encrypted_log json_dumps encrypt stored_at src payload h lg =
     (case new_dict (h ! payload) h of
        (entry_payload, h1) \<Rightarrow>
          let h2 = h1[entry_payload := setdefault (h1 ! entry_payload) ''stored_at'' (PyStr stored_at)];
              nonce_bytes = os_urandom src 12;
              serialized = json_dumps (h2 ! entry_payload);
              ct = encrypt nonce_bytes serialized
          in (h2, lg @ [\<lparr>nonce = b64encode nonce_bytes, ciphertext = b64encode ct\<rparr>]))"

definition collect_encrypted_logs :: "server \<Rightarrow> log_entry list" where
  "collect_encrypted_logs s = logs s"

section \<open>Log decryption (scripts/decrypt_logs.py)\<close>

text \<open>
  The dict that \<open>store_encrypted_log\<close> appends, as the script reads it back
  from the JSON document of \<open>/logs\<close>.
\<close>

definition entry_dict :: "log_entry \<Rightarrow> pyval" where
  "entry_dict e = PyDict [(''nonce'', PyStr (nonce e)), (''ciphertext'', PyStr (ciphertext e))]"

text \<open>\<open>entry[k]\<close> for a string \<open>k\<close>.\<close>

fun getitem :: "pyval \<Rightarrow> string \<Rightarrow> pyerr + pyval" where
  "getitem (PyDict d) k = (case map_of d k of None \<Rightarrow> Inl KeyError | Some v \<Rightarrow> Inr v)"
| "getitem _ k = Inl TypeError"

text \<open>
  \<open>decrypt_entries(entries, aes)\<close>, with the list \<open>decrypted\<close> as accumulator.
  \<open>decrypt\<close> stands for \<open>aes.decrypt(_, _, associated_data=None)\<close>, which
  raises \<open>InvalidTag\<close> when authentication fails, and \<open>json_loads\<close> for
  \<open>json.loads(_.decode())\<close>; both are library code. No exception is caught.
\<close>

fun decrypt_entries ::
  "(byte list \<Rightarrow> byte list \<Rightarrow> pyerr + byte list) \<Rightarrow> (byte list \<Rightarrow> pyerr + pyval) \<Rightarrow>
   pyval list \<Rightarrow> pyval list \<Rightarrow> pyerr + pyval list" where
  "decrypt_entries decrypt json_loads [] decrypted = Inr decrypted"
| "decrypt_entries decrypt json_loads (entry # entries) decrypted =
     (case getitem entry ''nonce'' of Inl err \<Rightarrow> Inl err | Inr nonce_text \<Rightarrow>
      case b64decode nonce_text of Inl err \<Rightarrow> Inl err | Inr nonce_bytes \<Rightarrow>
      case getitem entry ''ciphertext'' of Inl err \<Rightarrow> Inl err | Inr ciphertext_text \<Rightarrow>
      case b64decode ciphertext_text of Inl err \<Rightarrow> Inl err | Inr ciphertext_bytes \<Rightarrow>
      case decrypt nonce_bytes ciphertext_bytes of Inl err \<Rightarrow> Inl err | Inr plaintext \<Rightarrow>
      case json_loads plaintext of Inl err \<Rightarrow> Inl err | Inr v \<Rightarrow>
        decrypt_entries decrypt json_loads entries (decrypted @ [v]))"

section \<open>Envelope relay\<close>

text \<open>
  \<open>participants.get(key)\<close> for any value: a list or a dict cannot be hashed;
  every other value that is not a \<open>str\<close> equals no key.
\<close>

fun participants_get :: "(string \<times> member) list \<Rightarrow> pyval \<Rightarrow> pyerr + member option" where
  "participants_get ps (PyStr k) = Inr (map_of ps k)"
| "participants_get ps (PyList xs) = Inl TypeError"
| "participants_get ps (PyDict kvs) = Inl TypeError"
| "participants_get ps _ = Inr None"

text \<open>\<open>set(x.keys())\<close>: only a dict has \<open>keys\<close>.\<close>

fun keys_method :: "pyval \<Rightarrow> pyerr + string set" where
  "keys_method (PyDict kvs) = Inr (fst ` set kvs)"
| "keys_method _ = Inl AttributeError"

definition handle_send_message ::
  "(pydict \<Rightarrow> byte list) \<Rightarrow> (byte list \<Rightarrow> byte list \<Rightarrow> byte list) \<Rightarrow> string \<Rightarrow> (nat \<Rightarrow> byte) \<Rightarrow>
   string \<Rightarrow> pydict \<Rightarrow> server \<Rightarrow> pyerr option \<times> server" where
  "handle_send_message json_dumps encrypt stored_at src request_sid data s =
     (let sender = py_get data ''from'';
          ct = py_get data ''ciphertext'';
          iv = py_get data ''iv'';
          timestamp = py_get data ''timestamp'';
          envelopes = py_or (py_get data ''envelopes'') (PyDict [])
      in if \<not> truthy sender then
           (None, emit request_sid ''delivery_error''
                    (PyDict [(''message'', PyStr ''Missing sender username.'')]) s)
         else
           (case participants_get (participants s) sender of
              Inl e \<Rightarrow> (Some e, s)
            | Inr found \<Rightarrow>
                if (case found of None \<Rightarrow> True | Some m \<Rightarrow> sid m \<noteq> request_sid) then
                  (None, emit request_sid ''delivery_error''
                           (PyDict [(''message'', PyStr ''Sender not registered.'')]) s)
                else
                  (case keys_method envelopes of
                     Inl e \<Rightarrow> (Some e, s)
                   | Inr actual_recipients \<Rightarrow>
                       let expected_recipients = fst ` set (participants s);
                           missing = expected_recipients - actual_recipients
                       in if missing \<noteq> {} then
                            (None, emit request_sid ''delivery_error''
                                     (PyDict [(''message'',
                                        PyStr (''Missing envelopes for: '' @
                                               py_join '', '' (sorted_list_of_set missing)))]) s)
                          else
                            (case new_dict [(''from'', sender), (''ciphertext'', ct), (''iv'', iv),
                                            (''timestamp'', timestamp), (''envelopes'', envelopes)] [] of
                               (payload, h0) \<Rightarrow>
                                 (case store_encrypted_log json_dumps encrypt stored_at src
                                         payload h0 (logs s) of
                                    (h1, lg) \<Rightarrow>
                                      (None, socketio_emit request_sid ''receive_message''
                                               (PyDict (h1 ! payload)) True
                                               (s\<lparr>logs := lg\<rparr>)))))))"

section \<open>Key lookup, leave and disconnect\<close>

definition handle_request_public_key :: "string \<Rightarrow> pydict \<Rightarrow> server \<Rightarrow> pyerr option \<times> server" where
  "handle_request_public_key request_sid data s =
     (let username = py_get data ''username''
      in if \<not> truthy username then
           (None, emit request_sid ''public_key''
                    (PyDict [(''username'', PyNone), (''public_key'', PyNone)]) s)
         else
           (case participants_get (participants s) username of
              Inl e \<Rightarrow> (Some e, s)
            | Inr found \<Rightarrow>
                (None, emit request_sid ''public_key''
                   (PyDict [(''username'', username),
                            (''public_key'', (case found of None \<Rightarrow> PyNone | Some m \<Rightarrow> public_key m)),
                            (''fingerprint'',
                               (case found of None \<Rightarrow> PyNone | Some m \<Rightarrow> PyStr (fingerprint m)))])
                   s)))"

definition handle_leave_chat :: "string \<Rightarrow> server \<Rightarrow> pyerr option \<times> server" where
  "handle_leave_chat request_sid s = (None, remove_participant request_sid s)"

definition handle_disconnect :: "string \<Rightarrow> server \<Rightarrow> pyerr option \<times> server" where
  "handle_disconnect request_sid s = (None, remove_participant request_sid s)"

section \<open>Runs of the server\<close>

text \<open>
  One inbound Socket.IO event, with the connection it comes from and the
  readings of the clock and of the random source that its handler takes.
\<close>

datatype request =
    Register real string pydict
  | SendMessage string "nat \<Rightarrow> byte" string pydict
  | RequestPublicKey string pydict
  | LeaveChat string
  | Disconnect string

fun handle ::
  "(pydict \<Rightarrow> byte list) \<Rightarrow> (byte list \<Rightarrow> byte list \<Rightarrow> byte list) \<Rightarrow> request \<Rightarrow> server \<Rightarrow>
   pyerr option \<times> server" where
  "handle jd en (Register now c data) s = handle_register now c data s"
| "handle jd en (SendMessage stored_at src c data) s =
     handle_send_message jd en stored_at src c data s"
| "handle jd en (RequestPublicKey c data) s = handle_request_public_key c data s"
| "handle jd en (LeaveChat c) s = handle_leave_chat c s"
| "handle jd en (Disconnect c) s = handle_disconnect c s"

text \<open>The events of a run are handled one after the other, each on the state the last one left.\<close>

fun run ::
  "(pydict \<Rightarrow> byte list) \<Rightarrow> (byte list \<Rightarrow> byte list \<Rightarrow> byte list) \<Rightarrow> request list \<Rightarrow> server \<Rightarrow> server" where
  "run jd en [] s = s"
| "run jd en (r # rs) s = run jd en rs (snd (handle jd en r s))"

section \<open>Notions of the specification\<close>

text \<open>
  What the specification calls valid base64 (RFC 4648, section 4): groups of
  four characters of the alphabet, where the last group may end in one or two
  pad characters.
\<close>

definition b64_char :: "char \<Rightarrow> bool" where
  "b64_char c = (table_a2b_base64 c \<noteq> None)"

fun valid_base64 :: "string \<Rightarrow> bool" where
  "valid_base64 [] = True"
| "valid_base64 [a, b, c, d] =
     (b64_char a \<and> b64_char b \<and>
      ((c = CHR ''='' \<and> d = CHR ''='') \<or> (b64_char c \<and> (d = CHR ''='' \<or> b64_char d))))"
| "valid_base64 (a # b # c # d # e # rest) =
     (b64_char a \<and> b64_char b \<and> b64_char c \<and> b64_char d \<and> valid_base64 (e # rest))"
| "valid_base64 _ = False"

text \<open>
  The shape of a fingerprint: sixty-four lowercase hexadecimal digits in
  thirty-two pairs, a colon between two pairs.
\<close>

definition lower_hex :: "char \<Rightarrow> bool" where
  "lower_hex c = (c \<in> set ''0123456789abcdef'')"

definition fingerprint_shape :: "string \<Rightarrow> bool" where
  "fingerprint_shape fp =
     (length fp = 95 \<and>
      list_all (\<lambda>i. if i mod 3 = 2 then fp ! i = CHR '':'' else lower_hex (fp ! i)) [0..<95])"

text \<open>
  The registry is consistent when no username and no connection occurs twice as
  a key, no username is bound to two connections, every binding
  \<open>(connection, username)\<close> has the entry of that username with that
  connection, and every entry has the binding of its connection.
\<close>

definition registry_consistent :: "server \<Rightarrow> bool" where
  "registry_consistent s =
     (distinct (map fst (participants s)) \<and>
      distinct (map fst (sessions s)) \<and>
      distinct (map snd (sessions s)) \<and>
      list_all (\<lambda>(c, u). case map_of (participants s) u of
                            None \<Rightarrow> False
                          | Some m \<Rightarrow> sid m = c) (sessions s) \<and>
      list_all (\<lambda>(u, m). map_of (sessions s) (sid m) = Some u) (participants s))"

text \<open>Registration also keeps every registered name at two characters or more.\<close>

definition registry_inv :: "server \<Rightarrow> bool" where
  "registry_inv s =
     (registry_consistent s \<and> list_all (\<lambda>(u, m). 2 \<le> length u) (participants s))"

section \<open>Basic facts about emitting\<close>

lemma emitted_emit [simp]:
  "emitted (emit c ev p s) = emitted s @ [\<lparr>ev_target = To c, ev_name = ev, ev_payload = p\<rparr>]"
  by (simp add: emit_def)

lemma emitted_socketio_emit [simp]:
  "emitted (socketio_emit c ev p b s) =
     emitted s @ [\<lparr>ev_target = (if b then Everyone else EveryoneBut c), ev_name = ev, ev_payload = p\<rparr>]"
  by (simp add: socketio_emit_def)

lemma frame_emit [simp]:
  "participants (emit c ev p s) = participants s"
  "sessions (emit c ev p s) = sessions s"
  "logs (emit c ev p s) = logs s"
  by (simp_all add: emit_def)

lemma frame_socketio_emit [simp]:
  "participants (socketio_emit c ev p b s) = participants s"
  "sessions (socketio_emit c ev p b s) = sessions s"
  "logs (socketio_emit c ev p b s) = logs s"
  by (simp_all add: socketio_emit_def)

text \<open>The outcomes of the relay for a sender that is a non-empty string.\<close>

lemma send_unregistered:
  assumes "py_get data ''from'' = PyStr sender" and "sender \<noteq> []"
    and "case map_of (participants s) sender of None \<Rightarrow> True | Some m \<Rightarrow> sid m \<noteq> c"
  shows "handle_send_message jd en st src c data s =
           (None, emit c ''delivery_error''
                    (PyDict [(''message'', PyStr ''Sender not registered.'')]) s)"
  using assms by (simp add: handle_send_message_def Let_def split: option.splits)

lemma send_registered:
  assumes "py_get data ''from'' = PyStr sender" and "sender \<noteq> []"
    and "map_of (participants s) sender = Some m" and "sid m = c"
  shows "handle_send_message jd en st src c data s =
     (case keys_method (py_or (py_get data ''envelopes'') (PyDict [])) of
        Inl e \<Rightarrow> (Some e, s)
      | Inr actual \<Rightarrow>
          if fst ` set (participants s) - actual \<noteq> {} then
            (None, emit c ''delivery_error''
               (PyDict [(''message'',
                  PyStr (''Missing envelopes for: '' @
                         py_join '', '' (sorted_list_of_set (fst ` set (participants s) - actual))))]) s)
          else
            (None, socketio_emit c ''receive_message''
               (PyDict [(''from'', PyStr sender), (''ciphertext'', py_get data ''ciphertext''),
                        (''iv'', py_get data ''iv''), (''timestamp'', py_get data ''timestamp''),
                        (''envelopes'', py_or (py_get data ''envelopes'') (PyDict []))])
               True
               (s\<lparr>logs := logs s @
                  [\<lparr>nonce = b64encode (os_urandom src 12),
                    ciphertext = b64encode (en (os_urandom src 12) (jd
                      [(''from'', PyStr sender), (''ciphertext'', py_get data ''ciphertext''),
                       (''iv'', py_get data ''iv''), (''timestamp'', py_get data ''timestamp''),
                       (''envelopes'', py_or (py_get data ''envelopes'') (PyDict [])),
                       (''stored_at'', PyStr st)]))\<rparr>]\<rparr>)))"
  using assms
  by (simp add: handle_send_message_def Let_def new_dict_def store_encrypted_log_def setdefault_def
        split: sum.splits)

section \<open>Envelope completeness\<close>

lemma py_or_dict [simp]: "py_or (PyDict ev) (PyDict []) = PyDict ev"
  by (simp add: py_or_def)

text \<open>
  C1 (as amended). A message from a registered sender, sent from the sender's own
  connection with a dict \<open>ev\<close> of envelopes (no envelopes, or a falsy value, count
  as the empty dict), is relayed exactly when every registered username is a key
  of the envelopes; keys of unregistered names do not matter.
  When it is relayed, one log entry is appended and the payload, with the
  envelopes as the client sent them, goes to every connection, the sender
  included. Otherwise the caller alone is told the missing usernames, in
  ascending order and each once, and nothing else changes.
\<close>

theorem relay_iff_every_participant_has_envelope:
  assumes "py_get data ''from'' = PyStr sender" and "sender \<noteq> []"
    and "map_of (participants s) sender = Some m" and "sid m = c"
    and "py_or (py_get data ''envelopes'') (PyDict []) = PyDict ev"
  shows
   "(fst ` set (participants s) \<subseteq> fst ` set ev \<longrightarrow>
       handle_send_message jd en st src c data s =
         (None,
          s\<lparr>logs := logs s @
               [\<lparr>nonce = b64encode (os_urandom src 12),
                 ciphertext = b64encode (en (os_urandom src 12) (jd
                   [(''from'', PyStr sender), (''ciphertext'', py_get data ''ciphertext''),
                    (''iv'', py_get data ''iv''), (''timestamp'', py_get data ''timestamp''),
                    (''envelopes'', PyDict ev), (''stored_at'', PyStr st)]))\<rparr>],
             emitted := emitted s @
               [\<lparr>ev_target = Everyone, ev_name = ''receive_message'',
                 ev_payload = PyDict
                   [(''from'', PyStr sender), (''ciphertext'', py_get data ''ciphertext''),
                    (''iv'', py_get data ''iv''), (''timestamp'', py_get data ''timestamp''),
                    (''envelopes'', PyDict ev)]\<rparr>]\<rparr>)) \<and>
    (\<not> fst ` set (participants s) \<subseteq> fst ` set ev \<longrightarrow>
       handle_send_message jd en st src c data s =
         (None, emit c ''delivery_error''
            (PyDict [(''message'',
               PyStr (''Missing envelopes for: '' @
                      py_join '', ''
                        (sorted_list_of_set (fst ` set (participants s) - fst ` set ev))))]) s)) \<and>
    sorted (sorted_list_of_set (fst ` set (participants s) - fst ` set ev)) \<and>
    distinct (sorted_list_of_set (fst ` set (participants s) - fst ` set ev)) \<and>
    set (sorted_list_of_set (fst ` set (participants s) - fst ` set ev)) =
      fst ` set (participants s) - fst ` set ev \<and>
    (\<forall>c'. receives Everyone c')"
  using assms(5)
  by (simp add: send_registered [OF assms(1-4)] socketio_emit_def)

text \<open>
  C1 as stated fails: a message whose envelope keys are a strict superset of the
  registered usernames is relayed.
\<close>

theorem relay_superset_counterexample:
  "fst ` set [(''alice'', PyStr ''c1''), (''mallory'', PyStr ''c2'')] \<noteq>
     fst ` set (participants
       \<lparr>participants =
          [(''alice'', \<lparr>public_key = PyStr ''YWJj'', fingerprint = ''ab:cd'', sid = ''s1'', joined_at = 0\<rparr>)],
        sessions = [(''s1'', ''alice'')], logs = [], emitted = []\<rparr>) \<and>
   emitted (snd (handle_send_message (\<lambda>d. []) (\<lambda>n p. p) ''2026'' (\<lambda>i. 7) ''s1''
      [(''from'', PyStr ''alice''),
       (''envelopes'', PyDict [(''alice'', PyStr ''c1''), (''mallory'', PyStr ''c2'')])]
      \<lparr>participants =
          [(''alice'', \<lparr>public_key = PyStr ''YWJj'', fingerprint = ''ab:cd'', sid = ''s1'', joined_at = 0\<rparr>)],
        sessions = [(''s1'', ''alice'')], logs = [], emitted = []\<rparr>)) =
     [\<lparr>ev_target = Everyone, ev_name = ''receive_message'',
       ev_payload = PyDict
         [(''from'', PyStr ''alice''), (''ciphertext'', PyNone), (''iv'', PyNone),
          (''timestamp'', PyNone),
          (''envelopes'', PyDict [(''alice'', PyStr ''c1''), (''mallory'', PyStr ''c2'')])]\<rparr>]"
  by (simp add: handle_send_message_def Let_def py_get_def py_or_def new_dict_def
        store_encrypted_log_def setdefault_def)

theorem relay_iff_every_participant_has_envelope_witness:
  "handle_send_message (\<lambda>d. []) (\<lambda>n p. p) ''2026'' (\<lambda>i. 7) ''s1''
      [(''from'', PyStr ''alice''), (''envelopes'', PyDict [(''alice'', PyStr ''c1'')])]
      \<lparr>participants =
          [(''alice'', \<lparr>public_key = PyStr ''YWJj'', fingerprint = ''ab:cd'', sid = ''s1'', joined_at = 0\<rparr>),
           (''bob'', \<lparr>public_key = PyStr ''YWJj'', fingerprint = ''ab:cd'', sid = ''s2'', joined_at = 1\<rparr>)],
        sessions = [(''s1'', ''alice''), (''s2'', ''bob'')], logs = [], emitted = []\<rparr> =
     (None, emit ''s1'' ''delivery_error''
        (PyDict [(''message'', PyStr ''Missing envelopes for: bob'')])
        \<lparr>participants =
          [(''alice'', \<lparr>public_key = PyStr ''YWJj'', fingerprint = ''ab:cd'', sid = ''s1'', joined_at = 0\<rparr>),
           (''bob'', \<lparr>public_key = PyStr ''YWJj'', fingerprint = ''ab:cd'', sid = ''s2'', joined_at = 1\<rparr>)],
        sessions = [(''s1'', ''alice''), (''s2'', ''bob'')], logs = [], emitted = []\<rparr>) \<and>
   fst (handle_send_message (\<lambda>d. []) (\<lambda>n p. p) ''2026'' (\<lambda>i. 7) ''s1''
      [(''from'', PyStr ''alice''),
       (''envelopes'', PyDict [(''alice'', PyStr ''c1''), (''bob'', PyStr ''c2'')])]
      \<lparr>participants =
          [(''alice'', \<lparr>public_key = PyStr ''YWJj'', fingerprint = ''ab:cd'', sid = ''s1'', joined_at = 0\<rparr>),
           (''bob'', \<lparr>public_key = PyStr ''YWJj'', fingerprint = ''ab:cd'', sid = ''s2'', joined_at = 1\<rparr>)],
        sessions = [(''s1'', ''alice''), (''s2'', ''bob'')], logs = [], emitted = []\<rparr>) = None"
  using relay_iff_every_participant_has_envelope
     [where data = "[(''from'', PyStr ''alice''), (''envelopes'', PyDict [(''alice'', PyStr ''c1'')])]"
      and sender = "''alice''" and c = "''s1''" and ev = "[(''alice'', PyStr ''c1'')]"
      and m = "\<lparr>public_key = PyStr ''YWJj'', fingerprint = ''ab:cd'', sid = ''s1'', joined_at = 0\<rparr>"
      and jd = "\<lambda>d. []" and en = "\<lambda>n p. p" and st = "''2026''" and src = "\<lambda>i. 7"
      and s = "\<lparr>participants =
          [(''alice'', \<lparr>public_key = PyStr ''YWJj'', fingerprint = ''ab:cd'', sid = ''s1'', joined_at = 0\<rparr>),
           (''bob'', \<lparr>public_key = PyStr ''YWJj'', fingerprint = ''ab:cd'', sid = ''s2'', joined_at = 1\<rparr>)],
        sessions = [(''s1'', ''alice''), (''s2'', ''bob'')], logs = [], emitted = []\<rparr>"]
    relay_iff_every_participant_has_envelope
     [where data = "[(''from'', PyStr ''alice''),
         (''envelopes'', PyDict [(''alice'', PyStr ''c1''), (''bob'', PyStr ''c2'')])]"
      and sender = "''alice''" and c = "''s1''" and ev = "[(''alice'', PyStr ''c1''), (''bob'', PyStr ''c2'')]"
      and m = "\<lparr>public_key = PyStr ''YWJj'', fingerprint = ''ab:cd'', sid = ''s1'', joined_at = 0\<rparr>"
      and jd = "\<lambda>d. []" and en = "\<lambda>n p. p" and st = "''2026''" and src = "\<lambda>i. 7"
      and s = "\<lparr>participants =
          [(''alice'', \<lparr>public_key = PyStr ''YWJj'', fingerprint = ''ab:cd'', sid = ''s1'', joined_at = 0\<rparr>),
           (''bob'', \<lparr>public_key = PyStr ''YWJj'', fingerprint = ''ab:cd'', sid = ''s2'', joined_at = 1\<rparr>)],
        sessions = [(''s1'', ''alice''), (''s2'', ''bob'')], logs = [], emitted = []\<rparr>"]
  by (simp add: py_get_def py_or_def insert_Diff_if)

section \<open>The payload and the log copy\<close>

lemma store_encrypted_log_frame:
  "a < length h \<Longrightarrow> fst (store_encrypted_log jd en st src p h lg) ! a = h ! a"
  by (simp add: store_encrypted_log_def new_dict_def Let_def nth_append)

lemma keys_method_Inr: "keys_method v = Inr ks \<Longrightarrow> \<exists>kvs. v = PyDict kvs \<and> ks = fst ` set kvs"
  by (cases v) auto

lemma participants_get_Some:
  "participants_get ps v = Inr (Some m) \<Longrightarrow> \<exists>k. v = PyStr k \<and> map_of ps k = Some m"
  by (cases v) auto

lemma send_missing_sender:
  "\<not> truthy (py_get data ''from'') \<Longrightarrow>
   handle_send_message jd en st src c data s =
     (None, emit c ''delivery_error''
              (PyDict [(''message'', PyStr ''Missing sender username.'')]) s)"
  by (simp add: handle_send_message_def Let_def)

lemma send_unhashable:
  "truthy (py_get data ''from'') \<Longrightarrow>
   participants_get (participants s) (py_get data ''from'') = Inl err \<Longrightarrow>
   handle_send_message jd en st src c data s = (Some err, s)"
  by (simp add: handle_send_message_def Let_def)

lemma send_not_found:
  "truthy (py_get data ''from'') \<Longrightarrow>
   participants_get (participants s) (py_get data ''from'') = Inr found \<Longrightarrow>
   (case found of None \<Rightarrow> True | Some m \<Rightarrow> sid m \<noteq> c) \<Longrightarrow>
   handle_send_message jd en st src c data s =
     (None, emit c ''delivery_error''
              (PyDict [(''message'', PyStr ''Sender not registered.'')]) s)"
  by (simp add: handle_send_message_def Let_def)

lemma send_success_shape:
  assumes res: "handle_send_message jd en st src c data s = (r, s')"
    and em: "emitted s' = emitted s @ [e]" and nm: "ev_name e = ''receive_message''"
  shows "\<exists>sender ev m. py_get data ''from'' = PyStr sender \<and> sender \<noteq> [] \<and>
           py_get data ''envelopes'' = PyDict ev \<and>
           map_of (participants s) sender = Some m \<and> sid m = c \<and>
           fst ` set (participants s) \<subseteq> fst ` set ev"
proof -
  have t: "truthy (py_get data ''from'')"
  proof (rule ccontr)
    assume "\<not> truthy (py_get data ''from'')"
    from send_missing_sender [OF this, where jd = jd and en = en and st = st and src = src and c = c and s = s] res
    have "s' = emit c ''delivery_error''
              (PyDict [(''message'', PyStr ''Missing sender username.'')]) s" by simp
    with em nm show False by auto
  qed
  obtain found where pg: "participants_get (participants s) (py_get data ''from'') = Inr found"
  proof (cases "participants_get (participants s) (py_get data ''from'')")
    case (Inl err)
    from send_unhashable [OF t Inl, where jd = jd and en = en and st = st and src = src and c = c] res have "s' = s" by simp
    with em show ?thesis by simp
  next
    case (Inr found)
    then show ?thesis using that by blast
  qed
  have reg: "\<not> (case found of None \<Rightarrow> True | Some m \<Rightarrow> sid m \<noteq> c)"
  proof
    assume "case found of None \<Rightarrow> True | Some m \<Rightarrow> sid m \<noteq> c"
    from send_not_found [OF t pg this, where jd = jd and en = en and st = st and src = src] res
    have "s' = emit c ''delivery_error''
              (PyDict [(''message'', PyStr ''Sender not registered.'')]) s" by simp
    with em nm show False by auto
  qed
  then obtain m where m: "found = Some m" "sid m = c"
    by (cases found) auto
  obtain sender where sender: "py_get data ''from'' = PyStr sender"
      "map_of (participants s) sender = Some m"
    using participants_get_Some pg m by blast
  have ne: "sender \<noteq> []" using t sender by simp
  note sr = send_registered [OF sender(1) ne sender(2) m(2), where jd = jd and en = en and st = st and src = src]
  obtain ks where ks: "keys_method (py_or (py_get data ''envelopes'') (PyDict [])) = Inr ks"
  proof (cases "keys_method (py_or (py_get data ''envelopes'') (PyDict []))")
    case (Inl err)
    with sr res have "s' = s" by simp
    with em show ?thesis by simp
  next
    case (Inr ks)
    then show ?thesis using that by blast
  qed
  obtain ev where ev: "py_or (py_get data ''envelopes'') (PyDict []) = PyDict ev" "ks = fst ` set ev"
    using keys_method_Inr [OF ks] by blast
  have sub: "fst ` set (participants s) \<subseteq> fst ` set ev"
  proof (rule ccontr)
    assume "\<not> fst ` set (participants s) \<subseteq> fst ` set ev"
    then have "fst ` set (participants s) - ks \<noteq> {}" using ev(2) by blast
    with sr res ks have "s' = emit c ''delivery_error''
               (PyDict [(''message'',
                  PyStr (''Missing envelopes for: '' @
                         py_join '', '' (sorted_list_of_set (fst ` set (participants s) - ks))))]) s"
      by simp
    with em nm show False by auto
  qed
  have "(sender, m) \<in> set (participants s)"
    by (rule map_of_SomeD) (rule sender(2))
  then have "fst (sender, m) \<in> fst ` set (participants s)"
    by (rule imageI)
  with sub have "sender \<in> fst ` set ev" by auto
  then have "ev \<noteq> []" by auto
  with ev(1) have "py_get data ''envelopes'' = PyDict ev"
    by (simp add: py_or_def split: if_splits)
  with sender ne m sub show ?thesis by blast
qed



lemma send_success_state:
  assumes res: "handle_send_message jd en st src c data s = (r, s')"
    and em: "emitted s' = emitted s @ [e]" and nm: "ev_name e = ''receive_message''"
  shows "s' = s\<lparr>logs := logs s @
               [\<lparr>nonce = b64encode (os_urandom src 12),
                 ciphertext = b64encode (en (os_urandom src 12) (jd
                   [(''from'', py_get data ''from''), (''ciphertext'', py_get data ''ciphertext''),
                    (''iv'', py_get data ''iv''), (''timestamp'', py_get data ''timestamp''),
                    (''envelopes'', py_get data ''envelopes''), (''stored_at'', PyStr st)]))\<rparr>],
             emitted := emitted s @
               [\<lparr>ev_target = Everyone, ev_name = ''receive_message'',
                 ev_payload = PyDict
                   [(''from'', py_get data ''from''), (''ciphertext'', py_get data ''ciphertext''),
                    (''iv'', py_get data ''iv''), (''timestamp'', py_get data ''timestamp''),
                    (''envelopes'', py_get data ''envelopes'')]\<rparr>]\<rparr>"
proof -
  obtain sender ev m where sh: "py_get data ''from'' = PyStr sender" "sender \<noteq> []"
      "py_get data ''envelopes'' = PyDict ev"
      "map_of (participants s) sender = Some m" "sid m = c"
      "fst ` set (participants s) \<subseteq> fst ` set ev"
    using send_success_shape [OF res em nm] by blast
  have "handle_send_message jd en st src c data s =
      (None, socketio_emit c ''receive_message''
               (PyDict [(''from'', PyStr sender), (''ciphertext'', py_get data ''ciphertext''),
                        (''iv'', py_get data ''iv''), (''timestamp'', py_get data ''timestamp''),
                        (''envelopes'', PyDict ev)])
               True
               (s\<lparr>logs := logs s @
                  [\<lparr>nonce = b64encode (os_urandom src 12),
                    ciphertext = b64encode (en (os_urandom src 12) (jd
                      [(''from'', PyStr sender), (''ciphertext'', py_get data ''ciphertext''),
                       (''iv'', py_get data ''iv''), (''timestamp'', py_get data ''timestamp''),
                       (''envelopes'', PyDict ev),
                       (''stored_at'', PyStr st)]))\<rparr>]\<rparr>))"
    using sh(6) unfolding send_registered [OF sh(1,2,4,5)] sh(3) py_or_dict keys_method.simps
    by simp
  with res have "s' = socketio_emit c ''receive_message''
               (PyDict [(''from'', PyStr sender), (''ciphertext'', py_get data ''ciphertext''),
                        (''iv'', py_get data ''iv''), (''timestamp'', py_get data ''timestamp''),
                        (''envelopes'', PyDict ev)])
               True
               (s\<lparr>logs := logs s @
                  [\<lparr>nonce = b64encode (os_urandom src 12),
                    ciphertext = b64encode (en (os_urandom src 12) (jd
                      [(''from'', PyStr sender), (''ciphertext'', py_get data ''ciphertext''),
                       (''iv'', py_get data ''iv''), (''timestamp'', py_get data ''timestamp''),
                       (''envelopes'', PyDict ev),
                       (''stored_at'', PyStr st)]))\<rparr>]\<rparr>)"
    by simp
  then show ?thesis
    unfolding sh(1) sh(3) by (simp add: socketio_emit_def)
qed


text \<open>
  C10. Appending to the log leaves every dict object that existed before as it
  was: the timestamp goes into the copy. So whenever the relay emits
  \<open>receive_message\<close>, the payload has exactly the keys \<open>from\<close>, \<open>ciphertext\<close>,
  \<open>iv\<close>, \<open>timestamp\<close> and \<open>envelopes\<close>, each with the client's value (\<open>None\<close>
  where the client sent none), and no \<open>stored_at\<close>; the entry appended to the log
  is made from the same entries followed by \<open>stored_at\<close>.
\<close>

theorem relay_payload_untouched:
  "(\<forall>a < length h. fst (store_encrypted_log jd en st src p h lg) ! a = h ! a) \<and>
   (handle_send_message jd en st src c data s = (r, s') \<and>
    emitted s' = emitted s @ [e] \<and> ev_name e = ''receive_message'' \<longrightarrow>
      ev_payload e =
        PyDict [(''from'', py_get data ''from''), (''ciphertext'', py_get data ''ciphertext''),
                (''iv'', py_get data ''iv''), (''timestamp'', py_get data ''timestamp''),
                (''envelopes'', py_get data ''envelopes'')] \<and>
      map_of [(''from'', py_get data ''from''), (''ciphertext'', py_get data ''ciphertext''),
              (''iv'', py_get data ''iv''), (''timestamp'', py_get data ''timestamp''),
              (''envelopes'', py_get data ''envelopes'')] ''stored_at'' = None \<and>
      logs s' = logs s @
        [\<lparr>nonce = b64encode (os_urandom src 12),
          ciphertext = b64encode (en (os_urandom src 12) (jd
            [(''from'', py_get data ''from''), (''ciphertext'', py_get data ''ciphertext''),
             (''iv'', py_get data ''iv''), (''timestamp'', py_get data ''timestamp''),
             (''envelopes'', py_get data ''envelopes''), (''stored_at'', PyStr st)]))\<rparr>])"
proof (intro conjI impI allI)
  fix a assume "a < length h"
  then show "fst (store_encrypted_log jd en st src p h lg) ! a = h ! a"
    by (rule store_encrypted_log_frame)
next
  assume a: "handle_send_message jd en st src c data s = (r, s') \<and>
    emitted s' = emitted s @ [e] \<and> ev_name e = ''receive_message''"
  then have res: "handle_send_message jd en st src c data s = (r, s')"
    and em: "emitted s' = emitted s @ [e]" and nm: "ev_name e = ''receive_message''"
    by simp_all
  note st = send_success_state [OF res em nm]
  have "emitted s' = emitted s @
               [\<lparr>ev_target = Everyone, ev_name = ''receive_message'',
                 ev_payload = PyDict
                   [(''from'', py_get data ''from''), (''ciphertext'', py_get data ''ciphertext''),
                    (''iv'', py_get data ''iv''), (''timestamp'', py_get data ''timestamp''),
                    (''envelopes'', py_get data ''envelopes'')]\<rparr>]"
    by (subst st) simp
  with em have e: "e = \<lparr>ev_target = Everyone, ev_name = ''receive_message'',
                 ev_payload = PyDict
                   [(''from'', py_get data ''from''), (''ciphertext'', py_get data ''ciphertext''),
                    (''iv'', py_get data ''iv''), (''timestamp'', py_get data ''timestamp''),
                    (''envelopes'', py_get data ''envelopes'')]\<rparr>"
    by simp
  show "ev_payload e =
        PyDict [(''from'', py_get data ''from''), (''ciphertext'', py_get data ''ciphertext''),
                (''iv'', py_get data ''iv''), (''timestamp'', py_get data ''timestamp''),
                (''envelopes'', py_get data ''envelopes'')]"
    by (subst e) simp
  show "map_of [(''from'', py_get data ''from''), (''ciphertext'', py_get data ''ciphertext''),
              (''iv'', py_get data ''iv''), (''timestamp'', py_get data ''timestamp''),
              (''envelopes'', py_get data ''envelopes'')] ''stored_at'' = None"
    by simp
  show "logs s' = logs s @
        [\<lparr>nonce = b64encode (os_urandom src 12),
          ciphertext = b64encode (en (os_urandom src 12) (jd
            [(''from'', py_get data ''from''), (''ciphertext'', py_get data ''ciphertext''),
             (''iv'', py_get data ''iv''), (''timestamp'', py_get data ''timestamp''),
             (''envelopes'', py_get data ''envelopes''), (''stored_at'', PyStr st)]))\<rparr>]"
    by (subst st) simp
qed

theorem relay_payload_untouched_witness:
  "fst (store_encrypted_log (\<lambda>d. []) (\<lambda>n p. p) ''2026'' (\<lambda>i. 7) 0
          [[(''from'', PyStr ''alice'')]] []) ! 0 = [(''from'', PyStr ''alice'')] \<and>
   handle_send_message (\<lambda>d. []) (\<lambda>n p. p) ''2026'' (\<lambda>i. 7) ''s1''
      [(''from'', PyStr ''alice''), (''ciphertext'', PyStr ''c0''), (''timestamp'', PyInt 7),
       (''envelopes'', PyDict [(''alice'', PyStr ''c1'')])]
      \<lparr>participants =
          [(''alice'', \<lparr>public_key = PyStr ''YWJj'', fingerprint = ''ab:cd'', sid = ''s1'', joined_at = 0\<rparr>)],
        sessions = [(''s1'', ''alice'')], logs = [], emitted = []\<rparr> = (None, \<lparr>participants =
          [(''alice'', \<lparr>public_key = PyStr ''YWJj'', fingerprint = ''ab:cd'', sid = ''s1'', joined_at = 0\<rparr>)],
        sessions = [(''s1'', ''alice'')],
        logs = [\<lparr>nonce = b64encode (os_urandom (\<lambda>i. 7) 12), ciphertext = b64encode []\<rparr>],
        emitted = [\<lparr>ev_target = Everyone, ev_name = ''receive_message'',
        ev_payload = PyDict
          [(''from'', PyStr ''alice''), (''ciphertext'', PyStr ''c0''), (''iv'', PyNone),
           (''timestamp'', PyInt 7), (''envelopes'', PyDict [(''alice'', PyStr ''c1'')])]\<rparr>]\<rparr>) \<and>
   ev_payload \<lparr>ev_target = Everyone, ev_name = ''receive_message'',
        ev_payload = PyDict
          [(''from'', PyStr ''alice''), (''ciphertext'', PyStr ''c0''), (''iv'', PyNone),
           (''timestamp'', PyInt 7), (''envelopes'', PyDict [(''alice'', PyStr ''c1'')])]\<rparr> =
     PyDict [(''from'', PyStr ''alice''), (''ciphertext'', PyStr ''c0''), (''iv'', PyNone),
             (''timestamp'', PyInt 7), (''envelopes'', PyDict [(''alice'', PyStr ''c1'')])] \<and>
   logs \<lparr>participants =
          [(''alice'', \<lparr>public_key = PyStr ''YWJj'', fingerprint = ''ab:cd'', sid = ''s1'', joined_at = 0\<rparr>)],
        sessions = [(''s1'', ''alice'')],
        logs = [\<lparr>nonce = b64encode (os_urandom (\<lambda>i. 7) 12), ciphertext = b64encode []\<rparr>],
        emitted = [\<lparr>ev_target = Everyone, ev_name = ''receive_message'',
        ev_payload = PyDict
          [(''from'', PyStr ''alice''), (''ciphertext'', PyStr ''c0''), (''iv'', PyNone),
           (''timestamp'', PyInt 7), (''envelopes'', PyDict [(''alice'', PyStr ''c1'')])]\<rparr>]\<rparr> = [\<lparr>nonce = b64encode (os_urandom (\<lambda>i. 7) 12), ciphertext = b64encode []\<rparr>]"
  using relay_payload_untouched [where jd = "\<lambda>d. []" and en = "\<lambda>n p. p" and st = "''2026''"
      and src = "\<lambda>i. 7" and c = "''s1''" and p = 0 and h = "[[(''from'', PyStr ''alice'')]]"
      and lg = "[]" and r = None
      and data = "[(''from'', PyStr ''alice''), (''ciphertext'', PyStr ''c0''), (''timestamp'', PyInt 7),
       (''envelopes'', PyDict [(''alice'', PyStr ''c1'')])]"
      and s = "\<lparr>participants =
          [(''alice'', \<lparr>public_key = PyStr ''YWJj'', fingerprint = ''ab:cd'', sid = ''s1'', joined_at = 0\<rparr>)],
        sessions = [(''s1'', ''alice'')], logs = [], emitted = []\<rparr>"
      and s' = "\<lparr>participants =
          [(''alice'', \<lparr>public_key = PyStr ''YWJj'', fingerprint = ''ab:cd'', sid = ''s1'', joined_at = 0\<rparr>)],
        sessions = [(''s1'', ''alice'')],
        logs = [\<lparr>nonce = b64encode (os_urandom (\<lambda>i. 7) 12), ciphertext = b64encode []\<rparr>],
        emitted = [\<lparr>ev_target = Everyone, ev_name = ''receive_message'',
        ev_payload = PyDict
          [(''from'', PyStr ''alice''), (''ciphertext'', PyStr ''c0''), (''iv'', PyNone),
           (''timestamp'', PyInt 7), (''envelopes'', PyDict [(''alice'', PyStr ''c1'')])]\<rparr>]\<rparr>"
      and e = "\<lparr>ev_target = Everyone, ev_name = ''receive_message'',
        ev_payload = PyDict
          [(''from'', PyStr ''alice''), (''ciphertext'', PyStr ''c0''), (''iv'', PyNone),
           (''timestamp'', PyInt 7), (''envelopes'', PyDict [(''alice'', PyStr ''c1'')])]\<rparr>"]
  by (simp add: handle_send_message_def Let_def py_get_def py_or_def new_dict_def
        store_encrypted_log_def setdefault_def socketio_emit_def)

section \<open>Sender authentication\<close>






section \<open>Key lookup\<close>

text \<open>
  C9 (as amended). The reply to \<open>request_public_key\<close> goes to the caller only. With no
  username, or an empty one, it is \<open>{username: None, public_key: None}\<close>. For a non-empty
  name without an entry the name is echoed and both \<open>public_key\<close> and \<open>fingerprint\<close> are
  \<open>None\<close>. For a registered name it carries the name, the stored key and the stored fingerprint.
\<close>

theorem request_public_key_reply:
  "(\<not> truthy (py_get data ''username'') \<longrightarrow>
      handle_request_public_key c data s =
        (None, emit c ''public_key'' (PyDict [(''username'', PyNone), (''public_key'', PyNone)]) s)) \<and>
   (py_get data ''username'' = PyStr u \<and> u \<noteq> [] \<and> map_of (participants s) u = None \<longrightarrow>
      handle_request_public_key c data s =
        (None, emit c ''public_key''
                 (PyDict [(''username'', PyStr u), (''public_key'', PyNone), (''fingerprint'', PyNone)]) s)) \<and>
   (py_get data ''username'' = PyStr u \<and> u \<noteq> [] \<and> map_of (participants s) u = Some m \<longrightarrow>
      handle_request_public_key c data s =
        (None, emit c ''public_key''
                 (PyDict [(''username'', PyStr u), (''public_key'', public_key m),
                          (''fingerprint'', PyStr (fingerprint m))]) s))"
  by (simp add: handle_request_public_key_def Let_def)

theorem request_public_key_reply_witness:
  "handle_request_public_key ''s1'' [] init_server =
     (None, emit ''s1'' ''public_key'' (PyDict [(''username'', PyNone), (''public_key'', PyNone)])
              init_server) \<and>
   handle_request_public_key ''s1'' [(''username'', PyStr ''zed'')] init_server =
     (None, emit ''s1'' ''public_key''
              (PyDict [(''username'', PyStr ''zed''), (''public_key'', PyNone), (''fingerprint'', PyNone)])
              init_server) \<and>
   handle_request_public_key ''s2'' [(''username'', PyStr ''al'')]
       (init_server\<lparr>participants :=
          [(''al'', \<lparr>public_key = PyStr ''YWJj'', fingerprint = ''ab:cd'', sid = ''s1'', joined_at = 0\<rparr>)]\<rparr>) =
     (None, emit ''s2'' ''public_key''
              (PyDict [(''username'', PyStr ''al''), (''public_key'', PyStr ''YWJj''),
                       (''fingerprint'', PyStr ''ab:cd'')])
              (init_server\<lparr>participants :=
                 [(''al'', \<lparr>public_key = PyStr ''YWJj'', fingerprint = ''ab:cd'', sid = ''s1'', joined_at = 0\<rparr>)]\<rparr>))"
  using request_public_key_reply [where data = "[]" and c = "''s1''" and s = init_server]
    request_public_key_reply [where data = "[(''username'', PyStr ''zed'')]" and u = "''zed''"
       and s = init_server and c = "''s1''"]
    request_public_key_reply [where data = "[(''username'', PyStr ''al'')]" and u = "''al''"
       and s = "init_server\<lparr>participants :=
          [(''al'', \<lparr>public_key = PyStr ''YWJj'', fingerprint = ''ab:cd'', sid = ''s1'', joined_at = 0\<rparr>)]\<rparr>"
       and m = "\<lparr>public_key = PyStr ''YWJj'', fingerprint = ''ab:cd'', sid = ''s1'', joined_at = 0\<rparr>"
       and c = "''s2''"]
  by (simp add: py_get_def init_server_def)

text \<open>
  C9 as stated fails: an unknown, non-empty name is not answered with
  \<open>{username: None, public_key: None}\<close>.
\<close>

theorem request_public_key_unknown_counterexample:
  "map_of (participants init_server) ''zed'' = None \<and>
   handle_request_public_key ''s1'' [(''username'', PyStr ''zed'')] init_server =
     (None, emit ''s1'' ''public_key''
              (PyDict [(''username'', PyStr ''zed''), (''public_key'', PyNone), (''fingerprint'', PyNone)])
              init_server) \<and>
   PyDict [(''username'', PyStr ''zed''), (''public_key'', PyNone), (''fingerprint'', PyNone)]
     \<noteq> PyDict [(''username'', PyNone), (''public_key'', PyNone)]"
  by (simp add: handle_request_public_key_def Let_def py_get_def init_server_def)

section \<open>Removal and the registry invariant\<close>

lemma frame_broadcast_participants [simp]:
  "participants (broadcast_participants c s) = participants s"
  "sessions (broadcast_participants c s) = sessions s"
  "logs (broadcast_participants c s) = logs s"
  "emitted (broadcast_participants c s) =
     emitted s @ [\<lparr>ev_target = Everyone, ev_name = ''participants'',
                    ev_payload = PyDict [(''participants'', participant_snapshot (participants s))]\<rparr>]"
  by (simp_all add: broadcast_participants_def)

lemma remove_unbound:
  "map_of (sessions s) c = None \<Longrightarrow> remove_participant c s = s"
  by (simp add: remove_participant_def)

lemma remove_bound:
  assumes "map_of (sessions s) c = Some u" and "u \<noteq> []"
    and "map_of (participants s) u = Some info"
  shows "remove_participant c s =
     s\<lparr>participants := AList.delete u (participants s),
       sessions := AList.delete c (sessions s),
       emitted := emitted s @
         [\<lparr>ev_target = EveryoneBut c, ev_name = ''user_left'',
           ev_payload = PyDict [(''username'', PyStr u), (''fingerprint'', PyStr (fingerprint info))]\<rparr>,
          \<lparr>ev_target = Everyone, ev_name = ''participants'',
           ev_payload = PyDict [(''participants'',
                          participant_snapshot (AList.delete u (participants s)))]\<rparr>]\<rparr>"
  using assms
  by (simp add: remove_participant_def Let_def broadcast_participants_def socketio_emit_def)

lemma remove_frame_logs [simp]: "logs (remove_participant c s) = logs s"
  by (simp add: remove_participant_def Let_def split: option.splits)

text \<open>The invariant, read through the lookups of the two dicts.\<close>

lemma registry_inv_iff:
  "registry_inv s \<longleftrightarrow>
     distinct (map fst (participants s)) \<and> distinct (map fst (sessions s)) \<and>
     (\<forall>c u. map_of (sessions s) c = Some u \<longrightarrow>
        (\<exists>m. map_of (participants s) u = Some m \<and> sid m = c)) \<and>
     (\<forall>u m. map_of (participants s) u = Some m \<longrightarrow>
        map_of (sessions s) (sid m) = Some u \<and> 2 \<le> length u)"
  (is "?L \<longleftrightarrow> ?R")
proof
  assume l: ?L
  then have d1: "distinct (map fst (participants s))" and d2: "distinct (map fst (sessions s))"
    by (simp_all add: registry_inv_def registry_consistent_def)
  from l have a: "\<forall>(c, u) \<in> set (sessions s).
       case map_of (participants s) u of None \<Rightarrow> False | Some m \<Rightarrow> sid m = c"
    and b: "\<forall>(u, m) \<in> set (participants s). map_of (sessions s) (sid m) = Some u"
    and c: "\<forall>(u, m) \<in> set (participants s). 2 \<le> length u"
    unfolding registry_inv_def registry_consistent_def list_all_iff by blast+
  show ?R
  proof (intro conjI allI impI)
    show "distinct (map fst (participants s))" by (rule d1)
    show "distinct (map fst (sessions s))" by (rule d2)
  next
    fix c u assume "map_of (sessions s) c = Some u"
    then have "(c, u) \<in> set (sessions s)" by (rule map_of_SomeD)
    with a show "\<exists>m. map_of (participants s) u = Some m \<and> sid m = c"
      by (auto split: option.splits)
  next
    fix u m assume "map_of (participants s) u = Some m"
    then have "(u, m) \<in> set (participants s)" by (rule map_of_SomeD)
    with b show "map_of (sessions s) (sid m) = Some u" by auto
  next
    fix u m assume "map_of (participants s) u = Some m"
    then have "(u, m) \<in> set (participants s)" by (rule map_of_SomeD)
    with c show "2 \<le> length u" by auto
  qed
next
  assume r: ?R
  then have d1: "distinct (map fst (participants s))" and d2: "distinct (map fst (sessions s))"
    and a: "\<And>c u. map_of (sessions s) c = Some u \<Longrightarrow>
        \<exists>m. map_of (participants s) u = Some m \<and> sid m = c"
    and b: "\<And>u m. map_of (participants s) u = Some m \<Longrightarrow>
        map_of (sessions s) (sid m) = Some u \<and> 2 \<le> length u"
    by blast+
  have inj: "inj_on snd (set (sessions s))"
  proof (rule inj_onI)
    fix x y assume xin: "x \<in> set (sessions s)" and yin: "y \<in> set (sessions s)"
      and e: "snd x = snd y"
    have mx: "map_of (sessions s) (fst x) = Some (snd x)"
      using xin map_of_eq_Some_iff [OF d2, of "fst x" "snd x"] by simp
    have my: "map_of (sessions s) (fst y) = Some (snd y)"
      using yin map_of_eq_Some_iff [OF d2, of "fst y" "snd y"] by simp
    from a [OF mx] a [OF my] e have "fst x = fst y" by auto
    with e show "x = y" by (simp add: prod_eq_iff)
  qed
  from d2 have "distinct (sessions s)" by (simp add: distinct_map)
  with inj have d3: "distinct (map snd (sessions s))" by (simp add: distinct_map)
  have a': "list_all (\<lambda>(c, u). case map_of (participants s) u of
                            None \<Rightarrow> False | Some m \<Rightarrow> sid m = c) (sessions s)"
    unfolding list_all_iff
  proof (clarify)
    fix c u assume "(c, u) \<in> set (sessions s)"
    with d2 have "map_of (sessions s) c = Some u" by simp
    from a [OF this] show "case map_of (participants s) u of None \<Rightarrow> False | Some m \<Rightarrow> sid m = c"
      by auto
  qed
  have b': "list_all (\<lambda>(u, m). map_of (sessions s) (sid m) = Some u) (participants s)"
    and c': "list_all (\<lambda>(u, m). 2 \<le> length u) (participants s)"
    unfolding list_all_iff using b d1 by auto
  from d1 d2 d3 a' b' c' show ?L
    by (simp add: registry_inv_def registry_consistent_def)
qed

lemma registry_inv_init: "registry_inv init_server"
  by (simp add: registry_inv_def registry_consistent_def init_server_def)

lemma registry_inv_remove:
  assumes inv: "registry_inv s"
  shows "registry_inv (remove_participant c s)"
proof (cases "map_of (sessions s) c")
  case None
  with inv show ?thesis by (simp add: remove_unbound)
next
  case (Some u)
  from inv have R: "distinct (map fst (participants s))" "distinct (map fst (sessions s))"
    "\<And>c u. map_of (sessions s) c = Some u \<Longrightarrow>
        \<exists>m. map_of (participants s) u = Some m \<and> sid m = c"
    "\<And>u m. map_of (participants s) u = Some m \<Longrightarrow>
        map_of (sessions s) (sid m) = Some u \<and> 2 \<le> length u"
    unfolding registry_inv_iff by blast+
  from R(3) [OF Some] obtain m where m: "map_of (participants s) u = Some m" "sid m = c" by blast
  from R(4) [OF m(1)] have ne: "u \<noteq> []" by auto
  have dp: "map_of (AList.delete u (participants s)) = (map_of (participants s))(u := None)"
    by (rule delete_conv')
  have ds: "map_of (AList.delete c (sessions s)) = (map_of (sessions s))(c := None)"
    by (rule delete_conv')
  have A: "\<exists>m'. map_of (AList.delete u (participants s)) u' = Some m' \<and> sid m' = c'"
    if h: "map_of (AList.delete c (sessions s)) c' = Some u'" for c' u'
  proof -
    from h have c': "c' \<noteq> c" and l: "map_of (sessions s) c' = Some u'"
      unfolding ds by (simp_all split: if_splits)
    from R(3) [OF l] obtain m' where m': "map_of (participants s) u' = Some m'" "sid m' = c'"
      by blast
    have "u' \<noteq> u"
    proof
      assume "u' = u"
      with m' m have "c' = c" by simp
      with c' show False by simp
    qed
    with m' show ?thesis unfolding dp by simp
  qed
  have B: "map_of (AList.delete c (sessions s)) (sid m') = Some u' \<and> 2 \<le> length u'"
    if h: "map_of (AList.delete u (participants s)) u' = Some m'" for u' m'
  proof -
    from h have u': "u' \<noteq> u" and l: "map_of (participants s) u' = Some m'"
      unfolding dp by (simp_all split: if_splits)
    from R(4) [OF l] have b: "map_of (sessions s) (sid m') = Some u'" and len: "2 \<le> length u'"
      by simp_all
    have "sid m' \<noteq> c"
    proof
      assume "sid m' = c"
      with b Some have "u' = u" by simp
      with u' show False by simp
    qed
    with b len show ?thesis unfolding ds by simp
  qed
  have d1: "distinct (map fst (AList.delete u (participants s)))"
    using R(1) by (rule distinct_delete)
  have d2: "distinct (map fst (AList.delete c (sessions s)))"
    using R(2) by (rule distinct_delete)
  show ?thesis
    unfolding remove_bound [OF Some ne m(1)] registry_inv_iff
    using A B d1 d2 by (simp del: map_of_eq_Some_iff)
qed

section \<open>Outcomes of a registration\<close>

lemma register_raises_strip:
  "strip_method (py_or (py_get data ''username'') (PyStr [])) = Inl err \<Longrightarrow>
   handle_register now c data s = (Some err, s)"
  by (simp add: handle_register_def)

lemma register_missing_fields:
  "strip_method (py_or (py_get data ''username'') (PyStr [])) = Inr u \<Longrightarrow>
   u = [] \<or> \<not> truthy (py_get data ''public_key'') \<Longrightarrow>
   handle_register now c data s =
     (None, emit c ''register_error''
              (PyDict [(''message'', PyStr ''Username and public key are required.'')]) s)"
  by (simp add: handle_register_def Let_def)

lemma register_too_short:
  "strip_method (py_or (py_get data ''username'') (PyStr [])) = Inr u \<Longrightarrow>
   u \<noteq> [] \<Longrightarrow> truthy (py_get data ''public_key'') \<Longrightarrow> length u < 2 \<Longrightarrow>
   handle_register now c data s =
     (None, emit c ''register_error''
              (PyDict [(''message'', PyStr ''Username must be at least 2 characters.'')]) s)"
  by (simp add: handle_register_def Let_def)

lemma register_in_use:
  "strip_method (py_or (py_get data ''username'') (PyStr [])) = Inr u \<Longrightarrow>
   2 \<le> length u \<Longrightarrow> truthy (py_get data ''public_key'') \<Longrightarrow>
   map_of (participants s) u = Some existing \<Longrightarrow> sid existing \<noteq> c \<Longrightarrow>
   handle_register now c data s =
     (None, emit c ''register_error''
              (PyDict [(''message'', PyStr ''That username is already in use.'')]) s)"
  by (auto simp: handle_register_def Let_def)

lemma register_raises_decode:
  "strip_method (py_or (py_get data ''username'') (PyStr [])) = Inr u \<Longrightarrow>
   2 \<le> length u \<Longrightarrow> truthy (py_get data ''public_key'') \<Longrightarrow>
   (case map_of (participants s) u of None \<Rightarrow> True | Some existing \<Rightarrow> sid existing = c) \<Longrightarrow>
   compute_fingerprint (py_get data ''public_key'') = Inl err \<Longrightarrow>
   handle_register now c data s = (Some err, s)"
  by (auto simp: handle_register_def Let_def split: option.splits)

lemma register_accepted:
  "strip_method (py_or (py_get data ''username'') (PyStr [])) = Inr u \<Longrightarrow>
   2 \<le> length u \<Longrightarrow> truthy (py_get data ''public_key'') \<Longrightarrow>
   (case map_of (participants s) u of None \<Rightarrow> True | Some existing \<Rightarrow> sid existing = c) \<Longrightarrow>
   compute_fingerprint (py_get data ''public_key'') = Inr fp \<Longrightarrow>
   handle_register now c data s =
     (None,
      (remove_participant c s)
        \<lparr>participants :=
           AList.update u
             \<lparr>public_key = py_get data ''public_key'', fingerprint = fp, sid = c, joined_at = now\<rparr>
             (participants (remove_participant c s)),
         sessions := AList.update c u (sessions (remove_participant c s)),
         emitted := emitted (remove_participant c s) @
           [\<lparr>ev_target = To c, ev_name = ''register_success'',
             ev_payload = PyDict
               [(''username'', PyStr u), (''fingerprint'', PyStr fp),
                (''participants'',
                 participant_snapshot
                   (AList.update u
                      \<lparr>public_key = py_get data ''public_key'', fingerprint = fp, sid = c,
                        joined_at = now\<rparr>
                      (participants (remove_participant c s))))]\<rparr>,
            \<lparr>ev_target = EveryoneBut c, ev_name = ''user_joined'',
             ev_payload = PyDict [(''username'', PyStr u), (''fingerprint'', PyStr fp)]\<rparr>,
            \<lparr>ev_target = Everyone, ev_name = ''participants'',
             ev_payload = PyDict
               [(''participants'',
                 participant_snapshot
                   (AList.update u
                      \<lparr>public_key = py_get data ''public_key'', fingerprint = fp, sid = c,
                        joined_at = now\<rparr>
                      (participants (remove_participant c s))))]\<rparr>]\<rparr>)"
  by (auto simp: handle_register_def Let_def emit_def socketio_emit_def broadcast_participants_def
      split: option.splits)

lemma registry_inv_frame:
  "registry_inv s \<Longrightarrow> participants s' = participants s \<Longrightarrow> sessions s' = sessions s \<Longrightarrow>
   registry_inv s'"
  by (simp add: registry_inv_def registry_consistent_def del: map_of_eq_Some_iff)

text \<open>Every call of \<open>handle_register\<close> ends in one of three ways.\<close>

lemma register_outcome:
  obtains (raised) err where "handle_register now c data s = (Some err, s)"
  | (rejected) msg where
      "handle_register now c data s =
         (None, emit c ''register_error'' (PyDict [(''message'', PyStr msg)]) s)"
  | (accepted) u fp where
      "strip_method (py_or (py_get data ''username'') (PyStr [])) = Inr u"
      "2 \<le> length u" "truthy (py_get data ''public_key'')"
      "case map_of (participants s) u of None \<Rightarrow> True | Some existing \<Rightarrow> sid existing = c"
      "compute_fingerprint (py_get data ''public_key'') = Inr fp"
proof (cases "strip_method (py_or (py_get data ''username'') (PyStr []))")
  case (Inl err)
  then show ?thesis using raised register_raises_strip by blast
next
  case (Inr u)
  show ?thesis
  proof (cases "u = [] \<or> \<not> truthy (py_get data ''public_key'')")
    case True
    from register_missing_fields [OF Inr True] show ?thesis using rejected by blast
  next
    case False
    then have u: "u \<noteq> []" and t: "truthy (py_get data ''public_key'')" by simp_all
    show ?thesis
    proof (cases "length u < 2")
      case True
      from register_too_short [OF Inr u t True] show ?thesis using rejected by blast
    next
      case False
      then have len: "2 \<le> length u" by simp
      show ?thesis
      proof (cases "case map_of (participants s) u of None \<Rightarrow> True | Some existing \<Rightarrow> sid existing = c")
        case False
        then obtain existing where "map_of (participants s) u = Some existing" "sid existing \<noteq> c"
          by (auto split: option.splits)
        from register_in_use [OF Inr len t this] show ?thesis using rejected by blast
      next
        case True
        show ?thesis
        proof (cases "compute_fingerprint (py_get data ''public_key'')")
          case (Inl err)
          from register_raises_decode [OF Inr len t True Inl] show ?thesis using raised by blast
        next
          case (Inr fp)
          from accepted [OF \<open>strip_method (py_or (py_get data ''username'') (PyStr [])) = Inr u\<close>
            len t True Inr] show ?thesis .
        qed
      qed
    qed
  qed
qed

lemma remove_unbinds:
  assumes "registry_inv s"
  shows "map_of (sessions (remove_participant c s)) c = None"
proof (cases "map_of (sessions s) c")
  case None
  then show ?thesis by (simp add: remove_unbound)
next
  case (Some u)
  from assms have R: "\<And>c u. map_of (sessions s) c = Some u \<Longrightarrow>
        \<exists>m. map_of (participants s) u = Some m \<and> sid m = c"
    "\<And>u m. map_of (participants s) u = Some m \<Longrightarrow>
        map_of (sessions s) (sid m) = Some u \<and> 2 \<le> length u"
    unfolding registry_inv_iff by blast+
  from R(1) [OF Some] obtain m where m: "map_of (participants s) u = Some m" by blast
  from R(2) [OF m] have "u \<noteq> []" by auto
  from remove_bound [OF Some this m] show ?thesis by (simp add: delete_conv')
qed

lemma remove_lookup:
  assumes "registry_inv s"
  shows "map_of (participants (remove_participant c s)) u =
           (if map_of (sessions s) c = Some u then None else map_of (participants s) u)"
proof (cases "map_of (sessions s) c")
  case None
  then show ?thesis by (simp add: remove_unbound)
next
  case (Some a)
  from assms have R: "\<And>c u. map_of (sessions s) c = Some u \<Longrightarrow>
        \<exists>m. map_of (participants s) u = Some m \<and> sid m = c"
    "\<And>u m. map_of (participants s) u = Some m \<Longrightarrow>
        map_of (sessions s) (sid m) = Some u \<and> 2 \<le> length u"
    unfolding registry_inv_iff by blast+
  from R(1) [OF Some] obtain m where m: "map_of (participants s) a = Some m" by blast
  from R(2) [OF m] have "a \<noteq> []" by auto
  from remove_bound [OF Some this m] Some show ?thesis by (auto simp: delete_conv')
qed

lemma registry_inv_install:
  assumes inv: "registry_inv s1" and c: "map_of (sessions s1) c = None"
    and u: "map_of (participants s1) u = None" and len: "2 \<le> length u" and sm: "sid m = c"
  shows "registry_inv (s1\<lparr>participants := AList.update u m (participants s1),
                          sessions := AList.update c u (sessions s1),
                          emitted := evs\<rparr>)"
proof -
  from inv have R: "distinct (map fst (participants s1))" "distinct (map fst (sessions s1))"
    "\<And>c u. map_of (sessions s1) c = Some u \<Longrightarrow>
        \<exists>m. map_of (participants s1) u = Some m \<and> sid m = c"
    "\<And>u m. map_of (participants s1) u = Some m \<Longrightarrow>
        map_of (sessions s1) (sid m) = Some u \<and> 2 \<le> length u"
    unfolding registry_inv_iff by blast+
  have up: "map_of (AList.update u m (participants s1)) = (map_of (participants s1))(u \<mapsto> m)"
    by (rule update_conv')
  have us: "map_of (AList.update c u (sessions s1)) = (map_of (sessions s1))(c \<mapsto> u)"
    by (rule update_conv')
  have A: "\<exists>m'. map_of (AList.update u m (participants s1)) u' = Some m' \<and> sid m' = c'"
    if h: "map_of (AList.update c u (sessions s1)) c' = Some u'" for c' u'
  proof (cases "c' = c")
    case True
    with h have "u' = u" unfolding us by simp
    with True sm show ?thesis unfolding up by simp
  next
    case False
    with h have l: "map_of (sessions s1) c' = Some u'" unfolding us by simp
    from R(3) [OF l] obtain m' where m': "map_of (participants s1) u' = Some m'" "sid m' = c'"
      by blast
    with u have "u' \<noteq> u" by auto
    with m' show ?thesis unfolding up by simp
  qed
  have B: "map_of (AList.update c u (sessions s1)) (sid m') = Some u' \<and> 2 \<le> length u'"
    if h: "map_of (AList.update u m (participants s1)) u' = Some m'" for u' m'
  proof (cases "u' = u")
    case True
    with h have "m' = m" unfolding up by simp
    with True sm len show ?thesis unfolding us by simp
  next
    case False
    with h have l: "map_of (participants s1) u' = Some m'" unfolding up by simp
    from R(4) [OF l] have b: "map_of (sessions s1) (sid m') = Some u'" and l2: "2 \<le> length u'"
      by simp_all
    with c have "sid m' \<noteq> c" by auto
    with b l2 show ?thesis unfolding us by simp
  qed
  have d1: "distinct (map fst (AList.update u m (participants s1)))"
    using R(1) by (rule distinct_update)
  have d2: "distinct (map fst (AList.update c u (sessions s1)))"
    using R(2) by (rule distinct_update)
  show ?thesis
    unfolding registry_inv_iff using A B d1 d2 by (simp del: map_of_eq_Some_iff)
qed

lemma registry_inv_register:
  assumes inv: "registry_inv s"
  shows "registry_inv (snd (handle_register now c data s))"
proof (cases rule: register_outcome [of now c data s])
  case (raised err)
  with inv show ?thesis by simp
next
  case (rejected msg)
  show ?thesis
    by (rule registry_inv_frame [OF inv]) (simp_all add: rejected)
next
  case (accepted u fp)
  have i1: "registry_inv (remove_participant c s)" using inv by (rule registry_inv_remove)
  have c1: "map_of (sessions (remove_participant c s)) c = None" using inv by (rule remove_unbinds)
  have u1: "map_of (participants (remove_participant c s)) u = None"
  proof (cases "map_of (participants s) u")
    case None
    then show ?thesis by (simp add: remove_lookup [OF inv])
  next
    case (Some existing)
    with accepted(4) have "sid existing = c" by simp
    moreover from inv Some have "map_of (sessions s) (sid existing) = Some u"
      unfolding registry_inv_iff by blast
    ultimately show ?thesis by (simp add: remove_lookup [OF inv])
  qed
  show ?thesis
    unfolding register_accepted [OF accepted] snd_conv
    by (rule registry_inv_install [OF i1 c1 u1 accepted(2)]) simp
qed

lemma send_frame:
  "participants (snd (handle_send_message jd en st src c data s)) = participants s \<and>
   sessions (snd (handle_send_message jd en st src c data s)) = sessions s"
proof (cases "truthy (py_get data ''from'')")
  case False
  then show ?thesis by (simp add: send_missing_sender)
next
  case t: True
  show ?thesis
  proof (cases "participants_get (participants s) (py_get data ''from'')")
    case (Inl err)
    with t show ?thesis by (simp add: send_unhashable)
  next
    case (Inr found)
    show ?thesis
    proof (cases "case found of None \<Rightarrow> True | Some m \<Rightarrow> sid m \<noteq> c")
      case True
      with t Inr show ?thesis by (simp add: send_not_found)
    next
      case False
      then obtain m where m: "found = Some m" "sid m = c"
        by (cases found) auto
      with Inr obtain sender where sender: "py_get data ''from'' = PyStr sender"
        "map_of (participants s) sender = Some m"
        using participants_get_Some by blast
      with t have ne: "sender \<noteq> []" by simp
      show ?thesis
        unfolding send_registered [OF sender(1) ne sender(2) m(2)]
        by (simp split: sum.splits)
    qed
  qed
qed

lemma request_public_key_frame:
  "participants (snd (handle_request_public_key c data s)) = participants s \<and>
   sessions (snd (handle_request_public_key c data s)) = sessions s"
  by (simp add: handle_request_public_key_def Let_def split: sum.splits)

lemma registry_inv_handle:
  assumes "registry_inv s"
  shows "registry_inv (snd (handle jd en r s))"
proof (cases r)
  case (Register now c data)
  with assms show ?thesis by (simp add: registry_inv_register)
next
  case (SendMessage st src c data)
  show ?thesis
    by (rule registry_inv_frame [OF assms]) (simp_all add: SendMessage send_frame)
next
  case (RequestPublicKey c data)
  show ?thesis
    by (rule registry_inv_frame [OF assms]) (simp_all add: RequestPublicKey request_public_key_frame)
next
  case (LeaveChat c)
  with assms show ?thesis by (simp add: handle_leave_chat_def registry_inv_remove)
next
  case (Disconnect c)
  with assms show ?thesis by (simp add: handle_disconnect_def registry_inv_remove)
qed

lemma registry_inv_run:
  "registry_inv s \<Longrightarrow> registry_inv (run jd en rs s)"
  by (induction rs arbitrary: s) (simp_all add: registry_inv_handle)

text \<open>
  C2. After every sequence of events, handled one after the other from the empty
  server, the registry is consistent: every username has at most one entry, every
  connection at most one binding, no username is bound to two connections, each
  binding has the entry of its username with that connection, and each entry has
  the binding of its connection.
\<close>

theorem registry_consistent_run:
  "registry_consistent (run jd en rs init_server)"
  using registry_inv_run [OF registry_inv_init, of jd en rs]
  by (simp add: registry_inv_def)

lemmas eval_defs =
  handle_register_def remove_participant_def Let_def py_get_def py_or_def py_strip_def py_isspace_def
  compute_fingerprint_def table_a2b_base64_def emit_def socketio_emit_def broadcast_participants_def
  registry_inv_def registry_consistent_def

theorem registry_consistent_run_witness:
  "registry_consistent
     (run (\<lambda>d. []) (\<lambda>n p. p)
        [Register 1 ''s1'' [(''username'', PyStr ''alice''), (''public_key'', PyStr ''YWJj'')],
         Register 2 ''s2'' [(''username'', PyStr ''bob''), (''public_key'', PyStr ''YWJj'')],
         LeaveChat ''s1'']
        init_server)"
  using registry_consistent_run [of "\<lambda>d. []" "\<lambda>n p. p"
        "[Register 1 ''s1'' [(''username'', PyStr ''alice''), (''public_key'', PyStr ''YWJj'')],
         Register 2 ''s2'' [(''username'', PyStr ''bob''), (''public_key'', PyStr ''YWJj'')],
         LeaveChat ''s1'']"]
  by simp

section \<open>Re-registration under the same connection\<close>

text \<open>
  C5. Let connection \<open>c\<close> be registered as \<open>a\<close> in a consistent registry, and let a
  registration from \<open>c\<close> end with \<open>c\<close> bound to another name \<open>b\<close>. Then the
  handler first removed \<open>a\<close>: after the removal neither \<open>a\<close> nor \<open>b\<close> has an entry,
  \<open>c\<close> has no binding, and \<open>user_left\<close> for \<open>a\<close> and a snapshot without both names
  have been emitted. Only then are the entry and the binding of \<open>b\<close> installed and
  announced. The final registry has \<open>b\<close> and not \<open>a\<close>.
\<close>

theorem reregistration_replaces_old_name:
  assumes inv: "registry_inv s" and bound: "map_of (sessions s) c = Some a"
    and res: "handle_register now c data s = (r, s')"
    and b: "map_of (sessions s') c = Some b" and ab: "a \<noteq> b"
  shows "\<exists>info fp.
     r = None \<and>
     map_of (participants s) a = Some info \<and>
     compute_fingerprint (py_get data ''public_key'') = Inr fp \<and>
     map_of (participants (remove_participant c s)) a = None \<and>
     map_of (participants (remove_participant c s)) b = None \<and>
     map_of (sessions (remove_participant c s)) c = None \<and>
     emitted (remove_participant c s) = emitted s @
       [\<lparr>ev_target = EveryoneBut c, ev_name = ''user_left'',
         ev_payload = PyDict [(''username'', PyStr a), (''fingerprint'', PyStr (fingerprint info))]\<rparr>,
        \<lparr>ev_target = Everyone, ev_name = ''participants'',
         ev_payload = PyDict [(''participants'',
                        participant_snapshot (participants (remove_participant c s)))]\<rparr>] \<and>
     participants s' =
       AList.update b
         \<lparr>public_key = py_get data ''public_key'', fingerprint = fp, sid = c, joined_at = now\<rparr>
         (participants (remove_participant c s)) \<and>
     sessions s' = AList.update c b (sessions (remove_participant c s)) \<and>
     emitted s' = emitted (remove_participant c s) @
       [\<lparr>ev_target = To c, ev_name = ''register_success'',
         ev_payload = PyDict
           [(''username'', PyStr b), (''fingerprint'', PyStr fp),
            (''participants'', participant_snapshot (participants s'))]\<rparr>,
        \<lparr>ev_target = EveryoneBut c, ev_name = ''user_joined'',
         ev_payload = PyDict [(''username'', PyStr b), (''fingerprint'', PyStr fp)]\<rparr>,
        \<lparr>ev_target = Everyone, ev_name = ''participants'',
         ev_payload = PyDict [(''participants'', participant_snapshot (participants s'))]\<rparr>] \<and>
     map_of (participants s') a = None \<and>
     map_of (participants s') b =
       Some \<lparr>public_key = py_get data ''public_key'', fingerprint = fp, sid = c, joined_at = now\<rparr>"
proof (cases rule: register_outcome [of now c data s])
  case (raised err)
  with res have "s' = s" by simp
  with b bound ab show ?thesis by simp
next
  case (rejected msg)
  with res have "sessions s' = sessions s" by auto
  with b bound ab show ?thesis by simp
next
  case (accepted u fp)
  let ?s1 = "remove_participant c s"
  let ?m = "\<lparr>public_key = py_get data ''public_key'', fingerprint = fp, sid = c, joined_at = now\<rparr>"
  note acc = register_accepted [OF accepted, of now]
  from res acc have r: "r = None"
    and ps: "participants s' = AList.update u ?m (participants ?s1)"
    and ss: "sessions s' = AList.update c u (sessions ?s1)"
    by auto
  from b ss have ub: "u = b" by (simp add: update_conv')
  from inv bound obtain info where info: "map_of (participants s) a = Some info"
    unfolding registry_inv_iff by blast
  from inv info have ne: "a \<noteq> []" unfolding registry_inv_iff by fastforce
  have la: "map_of (participants ?s1) a = None"
    using bound by (simp add: remove_lookup [OF inv])
  have pb: "map_of (participants s) b = None"
  proof (cases "map_of (participants s) b")
    case None
    then show ?thesis .
  next
    case (Some existing)
    with accepted(4) ub have "sid existing = c" by simp
    moreover from inv Some have "map_of (sessions s) (sid existing) = Some b"
      unfolding registry_inv_iff by blast
    ultimately have "a = b" using bound by simp
    with ab show ?thesis by simp
  qed
  have lb: "map_of (participants ?s1) b = None"
    using pb by (simp add: remove_lookup [OF inv])
  have lc: "map_of (sessions ?s1) c = None"
    using inv by (rule remove_unbinds)
  have em1: "emitted ?s1 = emitted s @
       [\<lparr>ev_target = EveryoneBut c, ev_name = ''user_left'',
         ev_payload = PyDict [(''username'', PyStr a), (''fingerprint'', PyStr (fingerprint info))]\<rparr>,
        \<lparr>ev_target = Everyone, ev_name = ''participants'',
         ev_payload = PyDict [(''participants'', participant_snapshot (participants ?s1))]\<rparr>]"
    by (simp add: remove_bound [OF bound ne info])
  have em2: "emitted s' = emitted ?s1 @
       [\<lparr>ev_target = To c, ev_name = ''register_success'',
         ev_payload = PyDict
           [(''username'', PyStr b), (''fingerprint'', PyStr fp),
            (''participants'', participant_snapshot (participants s'))]\<rparr>,
        \<lparr>ev_target = EveryoneBut c, ev_name = ''user_joined'',
         ev_payload = PyDict [(''username'', PyStr b), (''fingerprint'', PyStr fp)]\<rparr>,
        \<lparr>ev_target = Everyone, ev_name = ''participants'',
         ev_payload = PyDict [(''participants'', participant_snapshot (participants s'))]\<rparr>]"
    using res acc ub by auto
  have fa: "map_of (participants s') a = None"
    unfolding ps ub using la ab by (simp add: update_conv')
  have fb: "map_of (participants s') b = Some ?m"
    unfolding ps ub by (simp add: update_conv')
  from r info accepted(5) la lb lc em1 ps ss em2 fa fb ub show ?thesis
    by blast
qed

theorem reregistration_replaces_old_name_witness:
  "registry_inv \<lparr>participants =
          [(''alice'', \<lparr>public_key = PyStr ''YWJj'', fingerprint = ''ab:cd'', sid = ''s1'', joined_at = 0\<rparr>)],
        sessions = [(''s1'', ''alice'')], logs = [], emitted = []\<rparr> \<and>
   map_of (sessions \<lparr>participants =
          [(''alice'', \<lparr>public_key = PyStr ''YWJj'', fingerprint = ''ab:cd'', sid = ''s1'', joined_at = 0\<rparr>)],
        sessions = [(''s1'', ''alice'')], logs = [], emitted = []\<rparr>) ''s1'' = Some ''alice'' \<and>
   map_of (sessions (snd (handle_register 5 ''s1'' [(''username'', PyStr ''bob''), (''public_key'', PyStr ''YWJj'')]
      \<lparr>participants =
          [(''alice'', \<lparr>public_key = PyStr ''YWJj'', fingerprint = ''ab:cd'', sid = ''s1'', joined_at = 0\<rparr>)],
        sessions = [(''s1'', ''alice'')], logs = [], emitted = []\<rparr>))) ''s1'' = Some ''bob'' \<and>
   map_of (participants (remove_participant ''s1'' \<lparr>participants =
          [(''alice'', \<lparr>public_key = PyStr ''YWJj'', fingerprint = ''ab:cd'', sid = ''s1'', joined_at = 0\<rparr>)],
        sessions = [(''s1'', ''alice'')], logs = [], emitted = []\<rparr>)) ''alice'' = None \<and>
   map_of (participants (remove_participant ''s1'' \<lparr>participants =
          [(''alice'', \<lparr>public_key = PyStr ''YWJj'', fingerprint = ''ab:cd'', sid = ''s1'', joined_at = 0\<rparr>)],
        sessions = [(''s1'', ''alice'')], logs = [], emitted = []\<rparr>)) ''bob'' = None \<and>
   map_of (participants (snd (handle_register 5 ''s1'' [(''username'', PyStr ''bob''), (''public_key'', PyStr ''YWJj'')]
      \<lparr>participants =
          [(''alice'', \<lparr>public_key = PyStr ''YWJj'', fingerprint = ''ab:cd'', sid = ''s1'', joined_at = 0\<rparr>)],
        sessions = [(''s1'', ''alice'')], logs = [], emitted = []\<rparr>))) ''alice'' = None"
  using reregistration_replaces_old_name [where s = "\<lparr>participants =
          [(''alice'', \<lparr>public_key = PyStr ''YWJj'', fingerprint = ''ab:cd'', sid = ''s1'', joined_at = 0\<rparr>)],
        sessions = [(''s1'', ''alice'')], logs = [], emitted = []\<rparr>" and c = "''s1''" and a = "''alice''"
     and b = "''bob''" and now = 5 and data = "[(''username'', PyStr ''bob''), (''public_key'', PyStr ''YWJj'')]"
     and r = "fst (handle_register 5 ''s1'' [(''username'', PyStr ''bob''), (''public_key'', PyStr ''YWJj'')]
      \<lparr>participants =
          [(''alice'', \<lparr>public_key = PyStr ''YWJj'', fingerprint = ''ab:cd'', sid = ''s1'', joined_at = 0\<rparr>)],
        sessions = [(''s1'', ''alice'')], logs = [], emitted = []\<rparr>)" and s' = "snd (handle_register 5 ''s1'' [(''username'', PyStr ''bob''), (''public_key'', PyStr ''YWJj'')]
      \<lparr>participants =
          [(''alice'', \<lparr>public_key = PyStr ''YWJj'', fingerprint = ''ab:cd'', sid = ''s1'', joined_at = 0\<rparr>)],
        sessions = [(''s1'', ''alice'')], logs = [], emitted = []\<rparr>)"]
  by (simp add: eval_defs)

section \<open>Presence events\<close>

lemma remove_emits_suffix:
  "\<exists>evs. emitted (remove_participant c s) = emitted s @ evs"
  by (simp add: remove_participant_def Let_def split: option.splits)

text \<open>
  C8 (as amended). Removing a bound connection from a consistent registry (on
  \<open>leave_chat\<close>, on \<open>disconnect\<close>, or inside a registration) emits \<open>user_left\<close>
  with the username and fingerprint, and then the snapshot of the registry as it
  is after the removal. A registration that emits \<open>register_success\<close> emits,
  after the events of the removal it entails, \<open>register_success\<close> to the caller,
  then \<open>user_joined\<close> with the username and fingerprint, then the snapshot of
  the new registry. The snapshot goes to every connection; the point event, on
  join and on departure alike, goes to every connection but the acting one, and it
  is emitted before the snapshot.
\<close>

theorem presence_events:
  "(registry_inv s \<and> map_of (sessions s) c = Some u \<longrightarrow>
      (\<exists>info. map_of (participants s) u = Some info \<and>
         participants (remove_participant c s) = AList.delete u (participants s) \<and>
         sessions (remove_participant c s) = AList.delete c (sessions s) \<and>
         emitted (remove_participant c s) = emitted s @
           [\<lparr>ev_target = EveryoneBut c, ev_name = ''user_left'',
             ev_payload = PyDict [(''username'', PyStr u),
                                  (''fingerprint'', PyStr (fingerprint info))]\<rparr>,
            \<lparr>ev_target = Everyone, ev_name = ''participants'',
             ev_payload = PyDict [(''participants'',
                            participant_snapshot (participants (remove_participant c s)))]\<rparr>])) \<and>
   snd (handle_leave_chat c s) = remove_participant c s \<and>
   snd (handle_disconnect c s) = remove_participant c s \<and>
   (handle_register now c data s = (r, s') \<and> emitted s' = emitted s @ evs \<and>
    (\<exists>e \<in> set evs. ev_name e = ''register_success'') \<longrightarrow>
      (\<exists>w fp evs1.
         emitted (remove_participant c s) = emitted s @ evs1 \<and>
         evs = evs1 @
           [\<lparr>ev_target = To c, ev_name = ''register_success'',
             ev_payload = PyDict
               [(''username'', PyStr w), (''fingerprint'', PyStr fp),
                (''participants'', participant_snapshot (participants s'))]\<rparr>,
            \<lparr>ev_target = EveryoneBut c, ev_name = ''user_joined'',
             ev_payload = PyDict [(''username'', PyStr w), (''fingerprint'', PyStr fp)]\<rparr>,
            \<lparr>ev_target = Everyone, ev_name = ''participants'',
             ev_payload = PyDict [(''participants'', participant_snapshot (participants s'))]\<rparr>] \<and>
         map_of (participants s') w =
           Some \<lparr>public_key = py_get data ''public_key'', fingerprint = fp, sid = c,
                 joined_at = now\<rparr>)) \<and>
   \<not> receives (EveryoneBut c) c \<and>
   (\<forall>c'. c' \<noteq> c \<longrightarrow> receives (EveryoneBut c) c') \<and>
   (\<forall>c'. receives Everyone c')"
proof (intro conjI impI)
  assume a: "registry_inv s \<and> map_of (sessions s) c = Some u"
  then have inv: "registry_inv s" and bound: "map_of (sessions s) c = Some u" by simp_all
  from inv bound obtain info where info: "map_of (participants s) u = Some info"
    unfolding registry_inv_iff by blast
  from inv info have ne: "u \<noteq> []" unfolding registry_inv_iff by fastforce
  show "\<exists>info. map_of (participants s) u = Some info \<and>
         participants (remove_participant c s) = AList.delete u (participants s) \<and>
         sessions (remove_participant c s) = AList.delete c (sessions s) \<and>
         emitted (remove_participant c s) = emitted s @
           [\<lparr>ev_target = EveryoneBut c, ev_name = ''user_left'',
             ev_payload = PyDict [(''username'', PyStr u),
                                  (''fingerprint'', PyStr (fingerprint info))]\<rparr>,
            \<lparr>ev_target = Everyone, ev_name = ''participants'',
             ev_payload = PyDict [(''participants'',
                            participant_snapshot (participants (remove_participant c s)))]\<rparr>]"
    using info by (simp add: remove_bound [OF bound ne info])
next
  show "snd (handle_leave_chat c s) = remove_participant c s"
    by (simp add: handle_leave_chat_def)
  show "snd (handle_disconnect c s) = remove_participant c s"
    by (simp add: handle_disconnect_def)
next
  assume a: "handle_register now c data s = (r, s') \<and> emitted s' = emitted s @ evs \<and>
    (\<exists>e \<in> set evs. ev_name e = ''register_success'')"
  then have res: "handle_register now c data s = (r, s')"
    and em: "emitted s' = emitted s @ evs"
    and ex: "\<exists>e \<in> set evs. ev_name e = ''register_success''" by simp_all
  show "\<exists>w fp evs1.
         emitted (remove_participant c s) = emitted s @ evs1 \<and>
         evs = evs1 @
           [\<lparr>ev_target = To c, ev_name = ''register_success'',
             ev_payload = PyDict
               [(''username'', PyStr w), (''fingerprint'', PyStr fp),
                (''participants'', participant_snapshot (participants s'))]\<rparr>,
            \<lparr>ev_target = EveryoneBut c, ev_name = ''user_joined'',
             ev_payload = PyDict [(''username'', PyStr w), (''fingerprint'', PyStr fp)]\<rparr>,
            \<lparr>ev_target = Everyone, ev_name = ''participants'',
             ev_payload = PyDict [(''participants'', participant_snapshot (participants s'))]\<rparr>] \<and>
         map_of (participants s') w =
           Some \<lparr>public_key = py_get data ''public_key'', fingerprint = fp, sid = c,
                 joined_at = now\<rparr>"
  proof (cases rule: register_outcome [of now c data s])
    case (raised err)
    with res have "s' = s" by simp
    with em have "evs = []" by simp
    with ex show ?thesis by simp
  next
    case (rejected msg)
    with res have "emitted s' = emitted s @
        [\<lparr>ev_target = To c, ev_name = ''register_error'',
          ev_payload = PyDict [(''message'', PyStr msg)]\<rparr>]" by auto
    with em have "evs = [\<lparr>ev_target = To c, ev_name = ''register_error'',
          ev_payload = PyDict [(''message'', PyStr msg)]\<rparr>]" by simp
    with ex show ?thesis by simp
  next
    case (accepted w fp)
    note acc = register_accepted [OF accepted, of now]
    obtain evs1 where evs1: "emitted (remove_participant c s) = emitted s @ evs1"
      using remove_emits_suffix by blast
    from res acc have ps: "participants s' = AList.update w
         \<lparr>public_key = py_get data ''public_key'', fingerprint = fp, sid = c, joined_at = now\<rparr>
         (participants (remove_participant c s))"
      by auto
    have em2: "emitted s' = emitted (remove_participant c s) @
       [\<lparr>ev_target = To c, ev_name = ''register_success'',
         ev_payload = PyDict
           [(''username'', PyStr w), (''fingerprint'', PyStr fp),
            (''participants'', participant_snapshot (participants s'))]\<rparr>,
        \<lparr>ev_target = EveryoneBut c, ev_name = ''user_joined'',
         ev_payload = PyDict [(''username'', PyStr w), (''fingerprint'', PyStr fp)]\<rparr>,
        \<lparr>ev_target = Everyone, ev_name = ''participants'',
         ev_payload = PyDict [(''participants'', participant_snapshot (participants s'))]\<rparr>]"
      using res acc by auto
    with em evs1 have "evs = evs1 @
       [\<lparr>ev_target = To c, ev_name = ''register_success'',
         ev_payload = PyDict
           [(''username'', PyStr w), (''fingerprint'', PyStr fp),
            (''participants'', participant_snapshot (participants s'))]\<rparr>,
        \<lparr>ev_target = EveryoneBut c, ev_name = ''user_joined'',
         ev_payload = PyDict [(''username'', PyStr w), (''fingerprint'', PyStr fp)]\<rparr>,
        \<lparr>ev_target = Everyone, ev_name = ''participants'',
         ev_payload = PyDict [(''participants'', participant_snapshot (participants s'))]\<rparr>]"
      by simp
    moreover have "map_of (participants s') w =
           Some \<lparr>public_key = py_get data ''public_key'', fingerprint = fp, sid = c,
                 joined_at = now\<rparr>"
      unfolding ps by (simp add: update_conv')
    ultimately show ?thesis using evs1 by blast
  qed
qed simp_all

theorem presence_events_witness:
  "registry_inv \<lparr>participants =
          [(''alice'', \<lparr>public_key = PyStr ''YWJj'', fingerprint = ''ab:cd'', sid = ''s1'', joined_at = 0\<rparr>)],
        sessions = [(''s1'', ''alice'')], logs = [], emitted = []\<rparr> \<and>
   emitted (remove_participant ''s1'' \<lparr>participants =
          [(''alice'', \<lparr>public_key = PyStr ''YWJj'', fingerprint = ''ab:cd'', sid = ''s1'', joined_at = 0\<rparr>)],
        sessions = [(''s1'', ''alice'')], logs = [], emitted = []\<rparr>) =
     [\<lparr>ev_target = EveryoneBut ''s1'', ev_name = ''user_left'',
       ev_payload = PyDict [(''username'', PyStr ''alice''), (''fingerprint'', PyStr ''ab:cd'')]\<rparr>,
      \<lparr>ev_target = Everyone, ev_name = ''participants'',
       ev_payload = PyDict [(''participants'',
                      participant_snapshot (participants (remove_participant ''s1'' \<lparr>participants =
          [(''alice'', \<lparr>public_key = PyStr ''YWJj'', fingerprint = ''ab:cd'', sid = ''s1'', joined_at = 0\<rparr>)],
        sessions = [(''s1'', ''alice'')], logs = [], emitted = []\<rparr>)))]\<rparr>] \<and>
   map_of (participants (snd (handle_register 5 ''s1'' [(''username'', PyStr ''bob''), (''public_key'', PyStr ''YWJj'')] \<lparr>participants =
          [(''alice'', \<lparr>public_key = PyStr ''YWJj'', fingerprint = ''ab:cd'', sid = ''s1'', joined_at = 0\<rparr>)],
        sessions = [(''s1'', ''alice'')], logs = [], emitted = []\<rparr>))) ''bob'' =
     Some \<lparr>public_key = PyStr ''YWJj'',
           fingerprint = py_join '':'' (digest_slices (hexdigest (sha256 [97, 98, 99]))),
           sid = ''s1'', joined_at = 5\<rparr>"
  using presence_events [where s = "\<lparr>participants =
          [(''alice'', \<lparr>public_key = PyStr ''YWJj'', fingerprint = ''ab:cd'', sid = ''s1'', joined_at = 0\<rparr>)],
        sessions = [(''s1'', ''alice'')], logs = [], emitted = []\<rparr>" and c = "''s1''" and u = "''alice''"
      and now = 5 and data = "[(''username'', PyStr ''bob''), (''public_key'', PyStr ''YWJj'')]" and r = None
      and s' = "snd (handle_register 5 ''s1'' [(''username'', PyStr ''bob''), (''public_key'', PyStr ''YWJj'')] \<lparr>participants =
          [(''alice'', \<lparr>public_key = PyStr ''YWJj'', fingerprint = ''ab:cd'', sid = ''s1'', joined_at = 0\<rparr>)],
        sessions = [(''s1'', ''alice'')], logs = [], emitted = []\<rparr>)"
      and evs = "emitted (snd (handle_register 5 ''s1'' [(''username'', PyStr ''bob''), (''public_key'', PyStr ''YWJj'')] \<lparr>participants =
          [(''alice'', \<lparr>public_key = PyStr ''YWJj'', fingerprint = ''ab:cd'', sid = ''s1'', joined_at = 0\<rparr>)],
        sessions = [(''s1'', ''alice'')], logs = [], emitted = []\<rparr>))"]
  by (simp add: eval_defs)

text \<open>
  C8 as stated fails: on departure too the point event is kept from the acting
  connection, which after \<open>leave_chat\<close> is still connected.
\<close>

theorem leave_point_event_skips_leaver_counterexample:
  "emitted (snd (handle_leave_chat ''s1'' \<lparr>participants =
          [(''alice'', \<lparr>public_key = PyStr ''YWJj'', fingerprint = ''ab:cd'', sid = ''s1'', joined_at = 0\<rparr>)],
        sessions = [(''s1'', ''alice'')], logs = [], emitted = []\<rparr>)) =
     [\<lparr>ev_target = EveryoneBut ''s1'', ev_name = ''user_left'',
       ev_payload = PyDict [(''username'', PyStr ''alice''), (''fingerprint'', PyStr ''ab:cd'')]\<rparr>,
      \<lparr>ev_target = Everyone, ev_name = ''participants'',
       ev_payload = PyDict [(''participants'', PyList [])]\<rparr>] \<and>
   \<not> receives (EveryoneBut ''s1'') ''s1''"
  by (simp add: handle_leave_chat_def remove_participant_def Let_def broadcast_participants_def
        socketio_emit_def participant_snapshot_def)

section \<open>A registration with an undecodable key\<close>

text \<open>
  An exception leaves either handler before anything is changed or emitted, and a
  rejected registration changes neither the registry nor the log.
\<close>

lemma register_exception_leaves_state:
  assumes "handle_register now c data s = (Some err, s')"
  shows "s' = s"
proof (cases rule: register_outcome [of now c data s])
  case (raised e)
  with assms show ?thesis by simp
next
  case (rejected msg)
  with assms show ?thesis by simp
next
  case (accepted u fp)
  from register_accepted [OF accepted, of now] assms show ?thesis by simp
qed

lemma register_rejection_leaves_state:
  assumes "handle_register now c data s = (r, s')"
    and "emitted s' = emitted s @ [e]" and "ev_name e = ''register_error''"
  shows "r = None \<and> participants s' = participants s \<and> sessions s' = sessions s \<and>
         logs s' = logs s \<and> ev_target e = To c"
proof (cases rule: register_outcome [of now c data s])
  case (raised err)
  with assms(1) have "s' = s" by simp
  with assms(2) show ?thesis by simp
next
  case (rejected msg)
  with assms(1) have "r = None"
    and "s' = emit c ''register_error'' (PyDict [(''message'', PyStr msg)]) s" by simp_all
  with assms(2) show ?thesis by auto
next
  case (accepted u fp)
  obtain evs1 where evs1: "emitted (remove_participant c s) = emitted s @ evs1"
    using remove_emits_suffix by blast
  from register_accepted [OF accepted, of now] assms(1)
  have "length (emitted s') = length (emitted (remove_participant c s)) + 3" by auto
  with evs1 assms(2) show ?thesis by simp
qed

lemma send_exception_leaves_state:
  assumes "handle_send_message jd en st src c data s = (Some err, s')"
  shows "s' = s"
proof (cases "truthy (py_get data ''from'')")
  case False
  from send_missing_sender [OF False] assms show ?thesis by simp
next
  case t: True
  show ?thesis
  proof (cases "participants_get (participants s) (py_get data ''from'')")
    case (Inl e)
    from send_unhashable [OF t Inl] assms show ?thesis by simp
  next
    case (Inr found)
    show ?thesis
    proof (cases "case found of None \<Rightarrow> True | Some m \<Rightarrow> sid m \<noteq> c")
      case True
      from send_not_found [OF t Inr True] assms show ?thesis by simp
    next
      case False
      then obtain m where m: "found = Some m" "sid m = c"
        by (cases found) auto
      with Inr obtain sender where sender: "py_get data ''from'' = PyStr sender"
        "map_of (participants s) sender = Some m"
        using participants_get_Some by blast
      with t have ne: "sender \<noteq> []" by simp
      from assms show ?thesis
        unfolding send_registered [OF sender(1) ne sender(2) m(2)]
        by (simp split: sum.splits if_splits)
    qed
  qed
qed

text \<open>
  C3 fails on the code for a key that is not decodable base64: the exception of
  \<open>compute_fingerprint\<close> leaves \<open>handle_register\<close> uncaught. The state is
  unchanged, but nothing is emitted, so the caller gets no rejection.
\<close>

theorem register_invalid_key_raises:
  "handle_register 0 ''s1'' [(''username'', PyStr ''alice''), (''public_key'', PyStr ''abc'')]
     init_server = (Some BinasciiError, init_server)"
  by (simp add: eval_defs init_server_def)

section \<open>The fingerprint\<close>

lemma table_pad [simp]: "table_a2b_base64 CHR ''='' = None"
  by (simp add: table_a2b_base64_def)

lemma b64_char_not_pad: "b64_char c \<Longrightarrow> c \<noteq> CHR ''=''"
  by (auto simp: b64_char_def)

lemma b64_char_ascii: "b64_char c \<Longrightarrow> (of_char c :: nat) < 128"
  by (simp add: b64_char_def table_a2b_base64_def Let_def split: if_splits)

lemma a2b_quad:
  assumes "b64_char a" "b64_char b" "b64_char c" "b64_char d"
  shows "\<exists>bs. a2b_base64 (a # b # c # d # rest) 0 lc p out = a2b_base64 rest 0 0 0 (out @ bs)"
proof -
  from assms obtain va vb vc vd where v: "table_a2b_base64 a = Some va" "table_a2b_base64 b = Some vb"
      "table_a2b_base64 c = Some vc" "table_a2b_base64 d = Some vd"
    by (auto simp: b64_char_def)
  from assms have n: "a \<noteq> CHR ''=''" "b \<noteq> CHR ''=''" "c \<noteq> CHR ''=''" "d \<noteq> CHR ''=''"
    by (simp_all add: b64_char_not_pad)
  have "a2b_base64 (a # b # c # d # rest) 0 lc p out =
        a2b_base64 rest 0 0 0
          (out @ [push_bit 2 va OR drop_bit 4 vb, push_bit 4 (vb AND 15) OR drop_bit 2 vc,
                  push_bit 6 (vc AND 3) OR vd])"
    using v n by simp
  then show ?thesis by blast
qed

lemma a2b_last_two:
  assumes "b64_char a" "b64_char b"
  shows "\<exists>bs. a2b_base64 [a, b, CHR ''='', CHR ''=''] 0 lc p out = Inr bs"
proof -
  from assms obtain va vb where v: "table_a2b_base64 a = Some va" "table_a2b_base64 b = Some vb"
    by (auto simp: b64_char_def)
  from assms have n: "a \<noteq> CHR ''=''" "b \<noteq> CHR ''=''"
    by (simp_all add: b64_char_not_pad)
  show ?thesis using v n by simp
qed

lemma a2b_last_three:
  assumes "b64_char a" "b64_char b" "b64_char c"
  shows "\<exists>bs. a2b_base64 [a, b, c, CHR ''=''] 0 lc p out = Inr bs"
proof -
  from assms obtain va vb vc where v: "table_a2b_base64 a = Some va" "table_a2b_base64 b = Some vb"
      "table_a2b_base64 c = Some vc"
    by (auto simp: b64_char_def)
  from assms have n: "a \<noteq> CHR ''=''" "b \<noteq> CHR ''=''" "c \<noteq> CHR ''=''"
    by (simp_all add: b64_char_not_pad)
  show ?thesis using v n by simp
qed

lemma valid_base64_decodes:
  "valid_base64 s \<Longrightarrow> \<exists>bs. a2b_base64 s 0 lc p out = Inr bs"
proof (induction s arbitrary: lc p out rule: valid_base64.induct)
  case 1
  then show ?case by simp
next
  case (2 a b c d)
  then have ab: "b64_char a" "b64_char b" by simp_all
  show ?case
  proof (cases "c = CHR ''=''")
    case True
    with "2.prems" have "d = CHR ''=''" by (auto dest: b64_char_not_pad)
    with True a2b_last_two [OF ab] show ?thesis by simp
  next
    case False
    with "2.prems" have c: "b64_char c" by simp
    show ?thesis
    proof (cases "d = CHR ''=''")
      case True
      with a2b_last_three [OF ab c] show ?thesis by simp
    next
      case False
      with "2.prems" c have d: "b64_char d" by auto
      from a2b_quad [OF ab c d, of "[]" lc p out] show ?thesis by auto
    qed
  qed
next
  case (3 a b c d e rest)
  then have q: "b64_char a" "b64_char b" "b64_char c" "b64_char d" and v: "valid_base64 (e # rest)"
    by simp_all
  from a2b_quad [OF q, of "e # rest" lc p out] obtain bs where
    "a2b_base64 (a # b # c # d # e # rest) 0 lc p out = a2b_base64 (e # rest) 0 0 0 (out @ bs)"
    by blast
  with "3.IH" [OF v, of 0 0 "out @ bs"] show ?case by simp
qed simp_all

lemma valid_base64_ascii:
  "valid_base64 s \<Longrightarrow> \<not> list_ex (\<lambda>c. 128 \<le> (of_char c :: nat)) s"
proof (induction s rule: valid_base64.induct)
  case (2 a b c d)
  then show ?case by (auto dest!: b64_char_ascii)
next
  case (3 a b c d e rest)
  then show ?case by (auto dest!: b64_char_ascii)
qed simp_all

lemma valid_base64_fingerprint:
  assumes "valid_base64 k"
  shows "\<exists>fp. compute_fingerprint (PyStr k) = Inr fp"
proof -
  from valid_base64_decodes [OF assms, of 0 0 "[]"] obtain bs where "a2b_base64 k 0 0 0 [] = Inr bs"
    by blast
  with valid_base64_ascii [OF assms] show ?thesis
    by (simp add: compute_fingerprint_def)
qed

lemma length_be_bytes32 [simp]: "length (be_bytes32 w) = 4"
  by (simp add: be_bytes32_def)

lemma length_sha256: "length (sha256 m) = 32"
  by (simp add: sha256_def split: prod.splits)

lemma lower_hex_digits: "list_all (\<lambda>n. lower_hex (hex_digit n)) [0..<16]"
  by code_simp

lemma lower_hex_digit: "n < 16 \<Longrightarrow> lower_hex (hex_digit n)"
  using lower_hex_digits by (simp add: list_all_iff)

lemma digest_slices_Nil [simp]: "digest_slices [] = []"
  by (simp add: digest_slices_def)

lemma digest_slices_pair [simp]:
  "digest_slices (x # y # rest) = [x, y] # digest_slices rest"
proof -
  have n: "(length (x # y # rest) + 1) div 2 = Suc ((length rest + 1) div 2)" by simp
  show ?thesis
    unfolding digest_slices_def n upt_conv_Cons [OF zero_less_Suc] map_Suc_upt [symmetric]
    by (simp add: comp_def)
qed

lemma digest_slices_hexdigest:
  "digest_slices (hexdigest bs) =
     map (\<lambda>b. [hex_digit (unat b div 16), hex_digit (unat b mod 16)]) bs"
  by (induction bs) (simp_all add: hexdigest_def)

text \<open>The shape of colon-joined pairs of hexadecimal digits.\<close>

lemma join_pairs_shape:
  assumes "xs \<noteq> []" and "\<forall>x \<in> set xs. \<exists>p q. x = [p, q] \<and> lower_hex p \<and> lower_hex q"
  shows "length (py_join '':'' xs) + 1 = 3 * length xs \<and>
         (\<forall>i < length (py_join '':'' xs).
            if i mod 3 = 2 then py_join '':'' xs ! i = CHR '':''
            else lower_hex (py_join '':'' xs ! i))"
  using assms
proof (induction "'':''" xs rule: py_join.induct)
  case 1
  then show ?case by simp
next
  case (2 x)
  then obtain p q where x: "x = [p, q]" "lower_hex p" "lower_hex q" by auto
  then show ?case by (auto simp: less_Suc_eq numeral_2_eq_2)
next
  case (3 x y ys)
  then obtain p q where x: "x = [p, q]" "lower_hex p" "lower_hex q" by auto
  from 3 have IH: "length (py_join '':'' (y # ys)) + 1 = 3 * length (y # ys)"
    "\<And>i. i < length (py_join '':'' (y # ys)) \<Longrightarrow>
       (if i mod 3 = 2 then py_join '':'' (y # ys) ! i = CHR '':''
        else lower_hex (py_join '':'' (y # ys) ! i))"
    by auto
  have e: "py_join '':'' (x # y # ys) = p # q # CHR '':'' # py_join '':'' (y # ys)"
    using x by simp
  show ?case
  proof (intro conjI allI impI)
    show "length (py_join '':'' (x # y # ys)) + 1 = 3 * length (x # y # ys)"
      unfolding e using IH(1) by simp
  next
    fix i assume i: "i < length (py_join '':'' (x # y # ys))"
    consider "i = 0" | "i = 1" | "i = 2" | "3 \<le> i" by linarith
    then show "if i mod 3 = 2 then py_join '':'' (x # y # ys) ! i = CHR '':''
               else lower_hex (py_join '':'' (x # y # ys) ! i)"
    proof cases
      case 1
      then show ?thesis unfolding e using x by simp
    next
      case 2
      then show ?thesis unfolding e using x by simp
    next
      case 3
      then show ?thesis unfolding e by simp
    next
      case 4
      then obtain j where j: "i = j + 3" by (metis le_add_diff_inverse2)
      with i have jl: "j < length (py_join '':'' (y # ys))" unfolding e by simp
      have m: "(j + 3) mod 3 = j mod 3" by simp
      have n: "(p # q # CHR '':'' # py_join '':'' (y # ys)) ! (j + 3) = py_join '':'' (y # ys) ! j"
        by (simp add: numeral_3_eq_3)
      show ?thesis unfolding e j m n using IH(2) [OF jl] .
    qed
  qed
qed

lemma fingerprint_shape_digest:
  assumes "length bs = 32"
  shows "fingerprint_shape (py_join '':'' (digest_slices (hexdigest bs)))"
proof -
  let ?xs = "map (\<lambda>b. [hex_digit (unat b div 16), hex_digit (unat b mod 16)]) bs"
  from assms have ne: "?xs \<noteq> []" by auto
  have pairs: "\<forall>x \<in> set ?xs. \<exists>p q. x = [p, q] \<and> lower_hex p \<and> lower_hex q"
  proof
    fix x assume "x \<in> set ?xs"
    then obtain b :: byte where b: "x = [hex_digit (unat b div 16), hex_digit (unat b mod 16)]"
      by auto
    have "unat b < 2 ^ LENGTH(8)" by (rule unsigned_less)
    then have "unat b < 256" by simp
    then have "unat b div 16 < 16" "unat b mod 16 < 16" by simp_all
    with b show "\<exists>p q. x = [p, q] \<and> lower_hex p \<and> lower_hex q"
      by (auto intro: lower_hex_digit)
  qed
  from join_pairs_shape [OF ne pairs] assms
  have len: "length (py_join '':'' ?xs) = 95"
    and sh: "\<And>i. i < length (py_join '':'' ?xs) \<Longrightarrow>
            (if i mod 3 = 2 then py_join '':'' ?xs ! i = CHR '':''
             else lower_hex (py_join '':'' ?xs ! i))"
    by auto
  show ?thesis
    unfolding fingerprint_shape_def digest_slices_hexdigest list_all_iff
    using len sh by auto
qed

text \<open>
  C7 (as amended). On valid base64 the fingerprint never fails. Whenever it
  returns, the input decoded to some bytes, the SHA-256 digest of these bytes has
  32 bytes (256 bits), and the result is the digest in lowercase hexadecimal,
  thirty-two pairs of digits with a colon between two pairs. It fails exactly
  when the decoder of the library fails, with the decoder's error. Two inputs that
  decode to the same bytes have the same fingerprint.
\<close>

theorem fingerprint_contract:
  "(valid_base64 k \<longrightarrow> (\<exists>fp. compute_fingerprint (PyStr k) = Inr fp)) \<and>
   (compute_fingerprint v = Inr fp \<longrightarrow>
      fingerprint_shape fp \<and>
      (\<exists>der. b64decode v = Inr der \<and> length (sha256 der) = 32 \<and>
             fp = py_join '':'' (digest_slices (hexdigest (sha256 der))))) \<and>
   (compute_fingerprint v = Inl err \<longrightarrow> b64decode v = Inl err) \<and>
   (b64decode v = Inr der \<and> b64decode w = Inr der \<longrightarrow>
      compute_fingerprint v = compute_fingerprint w)"
proof (intro conjI impI)
  assume "valid_base64 k"
  then show "\<exists>fp. compute_fingerprint (PyStr k) = Inr fp" by (rule valid_base64_fingerprint)
next
  assume a: "compute_fingerprint v = Inr fp"
  then obtain der where der: "b64decode v = Inr der"
    and fp: "fp = py_join '':'' (digest_slices (hexdigest (sha256 der)))"
    by (auto simp: compute_fingerprint_def split: sum.splits)
  show "fingerprint_shape fp"
    unfolding fp by (rule fingerprint_shape_digest) (rule length_sha256)
  show "\<exists>der. b64decode v = Inr der \<and> length (sha256 der) = 32 \<and>
             fp = py_join '':'' (digest_slices (hexdigest (sha256 der)))"
    using der fp length_sha256 by blast
next
  assume "compute_fingerprint v = Inl err"
  then show "b64decode v = Inl err"
    by (auto simp: compute_fingerprint_def split: sum.splits)
next
  assume "b64decode v = Inr der \<and> b64decode w = Inr der"
  then show "compute_fingerprint v = compute_fingerprint w"
    by (simp add: compute_fingerprint_def)
qed

theorem fingerprint_contract_witness:
  "valid_base64 ''YWJj'' \<and>
   fingerprint_shape (py_join '':'' (digest_slices (hexdigest (sha256 [97, 98, 99])))) \<and>
   compute_fingerprint (PyStr ''YWJj'') = compute_fingerprint (PyStr ''YWJj!'') \<and>
   compute_fingerprint (PyStr ''abc'') = Inl BinasciiError \<and>
   b64decode (PyStr ''abc'') = Inl BinasciiError"
  using fingerprint_contract [where k = "''YWJj''" and v = "PyStr ''YWJj''"
      and fp = "py_join '':'' (digest_slices (hexdigest (sha256 [97, 98, 99])))"
      and der = "[97, 98, 99]" and w = "PyStr ''YWJj!''" and err = BinasciiError]
    fingerprint_contract [where k = "''YWJj''" and v = "PyStr ''abc''"
      and fp = "[]" and der = "[]" and w = "PyStr ''abc''" and err = BinasciiError]
  by (simp add: compute_fingerprint_def table_a2b_base64_def b64_char_def)

text \<open>
  C7 as stated fails: the decoder skips characters outside the alphabet, so an
  input that is not valid base64 can have a fingerprint.
\<close>

theorem fingerprint_lenient_counterexample:
  "\<not> valid_base64 ''YWJj!'' \<and> \<not> isl (compute_fingerprint (PyStr ''YWJj!''))"
  by (simp add: compute_fingerprint_def table_a2b_base64_def)

text \<open>The fingerprint of the three bytes \<open>abc\<close>, as \<open>hashlib\<close> gives it.\<close>

lemma fingerprint_abc:
  "compute_fingerprint (PyStr ''YWJj'') =
     Inr ''ba:78:16:bf:8f:01:cf:ea:41:41:40:de:5d:ae:22:23:b0:03:61:a3:96:17:7a:9c:b4:10:ff:61:f2:00:15:ad''"
  by code_simp


section \<open>The encrypted audit log\<close>

text \<open>
  Encoding and decoding are inverse: every byte string comes back from its
  base64 text. The six-bit groups of the encoder are below 64, the table maps
  each to an alphabet character that the decoder's table maps back, and the
  decoder's shifts reassemble the three bytes of a group.
\<close>

lemma masks: "(3 :: byte) = mask 2" "(15 :: byte) = mask 4" "(63 :: byte) = mask 6"
  by (simp_all add: mask_eq_exp_minus_1)

lemma suc2: "2 \<le> n \<Longrightarrow> Suc (Suc (n - 2)) = n"
  by simp

lemma octet1:
  fixes a b :: byte
  shows "push_bit 2 (drop_bit 2 a) OR drop_bit 4 (push_bit 4 (a AND 3) OR drop_bit 4 b) = a"
  unfolding masks
  apply (rule bit_word_eqI) 
  subgoal for n
    by (cases "2 \<le> n") (auto simp add: bit_simps suc2)
  done

lemma octet1':
  fixes a b :: byte
  shows "push_bit 2 (drop_bit 2 a) OR drop_bit 4 (push_bit 4 (a AND 3)) = a"
  unfolding masks
  apply (rule bit_word_eqI) 
  subgoal for n
    by (cases "2 \<le> n") (auto simp add: bit_simps suc2)
  done

lemma octet2:
  fixes a b c :: byte
  shows "push_bit 4 ((push_bit 4 (a AND 3) OR drop_bit 4 b) AND 15) OR
     drop_bit 2 (push_bit 2 (b AND 15) OR drop_bit 6 c) = b"
  unfolding masks
  apply (rule bit_word_eqI) 
  subgoal for n
    by (cases "4 \<le> n") (auto simp add: bit_simps)
  done

lemma octet2':
  fixes a b c :: byte
  shows "push_bit 4 ((push_bit 4 (a AND 3) OR drop_bit 4 b) AND 15) OR
     drop_bit 2 (push_bit 2 (b AND 15)) = b"
  unfolding masks
  apply (rule bit_word_eqI) 
  subgoal for n
    by (cases "4 \<le> n") (auto simp add: bit_simps)
  done

lemma octet3:
  fixes a b c :: byte
  shows "push_bit 6 ((push_bit 2 (b AND 15) OR drop_bit 6 c) AND 3) OR (c AND 63) = c"
  unfolding masks
  apply (rule bit_word_eqI) 
  subgoal for n
    by (cases "6 \<le> n") (auto simp add: bit_simps)
  done

lemma six_bits: "drop_bit 6 v = 0 \<Longrightarrow> unat v < 64" for v :: byte
proof -
  assume "drop_bit 6 v = 0"
  then have "unat (drop_bit 6 v) = 0" by simp
  then have "unat v div 2 ^ 6 = 0" by (simp add: drop_bit_eq_div unat_div)
  then show ?thesis by (simp add: div_eq_0_iff)
qed

lemma sextets:
  fixes a b c :: byte
  shows "drop_bit 6 (drop_bit 2 a) = 0"
    and "drop_bit 6 (push_bit 4 (a AND 3) OR drop_bit 4 b) = 0"
    and "drop_bit 6 (push_bit 4 (a AND 3)) = 0"
    and "drop_bit 6 (push_bit 2 (b AND 15) OR drop_bit 6 c) = 0"
    and "drop_bit 6 (push_bit 2 (b AND 15)) = 0"
    and "drop_bit 6 (c AND 63) = 0"
  by (rule bit_word_eqI, simp add: bit_simps)+

lemma table_roundtrip:
  assumes "drop_bit 6 v = 0"
  shows "table_a2b_base64 (table_b2a_base64 v) = Some v"
    and "table_b2a_base64 v \<noteq> CHR ''=''"
    and "(of_char (table_b2a_base64 v) :: nat) < 128"
proof -
  from six_bits [OF assms] have n: "unat v < 64" .
  have v: "of_nat (unat v) = v" by simp
  have pad: "(of_char CHR ''='' :: nat) = 61" by simp
  consider "unat v < 26" | "26 \<le> unat v" "unat v < 52" | "52 \<le> unat v" "unat v < 62"
    | "unat v = 62" | "unat v = 63"
    using n by linarith
  then have "table_a2b_base64 (table_b2a_base64 v) = Some v \<and> table_b2a_base64 v \<noteq> CHR ''=''
     \<and> (of_char (table_b2a_base64 v) :: nat) < 128"
  proof cases
    case 1
    then have c: "(of_char (table_b2a_base64 v) :: nat) = unat v + 65"
      by (simp add: table_b2a_base64_def Let_def)
    have "table_b2a_base64 v \<noteq> CHR ''=''" using c pad 1 by auto
    then show ?thesis using c 1 v
      by (simp add: table_a2b_base64_def Let_def)
  next
    case 2
    then have c: "(of_char (table_b2a_base64 v) :: nat) = unat v + 71"
      by (simp add: table_b2a_base64_def Let_def)
    have "table_b2a_base64 v \<noteq> CHR ''=''" using c pad 2 by auto
    then show ?thesis using c 2 v
      by (simp add: table_a2b_base64_def Let_def)
  next
    case 3
    then have c: "(of_char (table_b2a_base64 v) :: nat) = unat v - 4"
      by (simp add: table_b2a_base64_def Let_def)
    have "table_b2a_base64 v \<noteq> CHR ''=''" using c pad 3 by auto
    then show ?thesis using c 3 v
      by (auto simp add: table_a2b_base64_def Let_def)
  next
    case 4
    then have "v = 62" by (metis v of_nat_numeral)
    then show ?thesis
      by (simp add: table_a2b_base64_def table_b2a_base64_def Let_def)
  next
    case 5
    then have "v = 63" by (metis v of_nat_numeral)
    then show ?thesis
      by (simp add: table_a2b_base64_def table_b2a_base64_def Let_def)
  qed
  then show "table_a2b_base64 (table_b2a_base64 v) = Some v"
    and "table_b2a_base64 v \<noteq> CHR ''=''"
    and "(of_char (table_b2a_base64 v) :: nat) < 128"
    by simp_all
qed


lemma a2b_quad_value:
  assumes "table_a2b_base64 a = Some va" "table_a2b_base64 b = Some vb"
    "table_a2b_base64 c = Some vc" "table_a2b_base64 d = Some vd"
    "a \<noteq> CHR ''=''" "b \<noteq> CHR ''=''" "c \<noteq> CHR ''=''" "d \<noteq> CHR ''=''"
  shows "a2b_base64 (a # b # c # d # rest) 0 lc p out =
     a2b_base64 rest 0 0 0
       (out @ [push_bit 2 va OR drop_bit 4 vb, push_bit 4 (vb AND 15) OR drop_bit 2 vc,
               push_bit 6 (vc AND 3) OR vd])"
  using assms by simp

lemma a2b_pair_value:
  assumes "table_a2b_base64 a = Some va" "table_a2b_base64 b = Some vb"
    "a \<noteq> CHR ''=''" "b \<noteq> CHR ''=''"
  shows "a2b_base64 [a, b, CHR ''='', CHR ''=''] 0 lc p out =
     Inr (out @ [push_bit 2 va OR drop_bit 4 vb])"
  using assms by simp

lemma a2b_triple_value:
  assumes "table_a2b_base64 a = Some va" "table_a2b_base64 b = Some vb"
    "table_a2b_base64 c = Some vc"
    "a \<noteq> CHR ''=''" "b \<noteq> CHR ''=''" "c \<noteq> CHR ''=''"
  shows "a2b_base64 [a, b, c, CHR ''=''] 0 lc p out =
     Inr (out @ [push_bit 2 va OR drop_bit 4 vb, push_bit 4 (vb AND 15) OR drop_bit 2 vc])"
  using assms by simp

lemma a2b_b64encode:
  "a2b_base64 (b64encode bs) 0 lc p out = Inr (out @ bs)"
proof (induction bs arbitrary: lc p out rule: b64encode.induct)
  case 1
  show ?case by simp
next
  case (2 a)
  have "a2b_base64 (b64encode [a]) 0 lc p out =
     Inr (out @ [push_bit 2 (drop_bit 2 a) OR drop_bit 4 (push_bit 4 (a AND 3))])"
    unfolding b64encode.simps
    by (rule a2b_pair_value) (rule table_roundtrip sextets)+
  then show ?case unfolding octet1' .
next
  case (3 a b)
  have "a2b_base64 (b64encode [a, b]) 0 lc p out =
     Inr (out @ [push_bit 2 (drop_bit 2 a) OR drop_bit 4 (push_bit 4 (a AND 3) OR drop_bit 4 b),
        push_bit 4 ((push_bit 4 (a AND 3) OR drop_bit 4 b) AND 15) OR
          drop_bit 2 (push_bit 2 (b AND 15))])"
    unfolding b64encode.simps
    by (rule a2b_triple_value) (rule table_roundtrip sextets)+
  then show ?case unfolding octet1 octet2' .
next
  case (4 a b c rest)
  have "a2b_base64 (b64encode (a # b # c # rest)) 0 lc p out =
     a2b_base64 (b64encode rest) 0 0 0
       (out @ [push_bit 2 (drop_bit 2 a) OR drop_bit 4 (push_bit 4 (a AND 3) OR drop_bit 4 b),
        push_bit 4 ((push_bit 4 (a AND 3) OR drop_bit 4 b) AND 15) OR
          drop_bit 2 (push_bit 2 (b AND 15) OR drop_bit 6 c),
        push_bit 6 ((push_bit 2 (b AND 15) OR drop_bit 6 c) AND 3) OR (c AND 63)])"
    unfolding b64encode.simps append.simps
    by (rule a2b_quad_value) (rule table_roundtrip sextets)+
  also have "\<dots> = a2b_base64 (b64encode rest) 0 0 0 (out @ [a, b, c])"
    unfolding octet1 octet2 octet3 ..
  also have "\<dots> = Inr ((out @ [a, b, c]) @ rest)" by (rule 4)
  finally show ?case by simp
qed

lemma b64encode_ascii: "list_all (\<lambda>c. (of_char c :: nat) < 128) (b64encode bs)"
proof (induction bs rule: b64encode.induct)
  case 1
  show ?case by simp
next
  case (2 a)
  show ?case unfolding b64encode.simps list.pred_inject
    by (intro conjI TrueI table_roundtrip(3) sextets) simp_all
next
  case (3 a b)
  show ?case unfolding b64encode.simps list.pred_inject
    by (intro conjI TrueI table_roundtrip(3) sextets) simp_all
next
  case (4 a b c rest)
  show ?case unfolding b64encode.simps list.pred_inject list_all_append
    by (intro conjI TrueI table_roundtrip(3) sextets 4) simp
qed

lemma b64decode_b64encode: "b64decode (PyStr (b64encode bs)) = Inr bs"
proof -
  have "\<not> list_ex (\<lambda>c. 128 \<le> (of_char c :: nat)) (b64encode bs)"
    using b64encode_ascii [of bs] by (auto simp: list_ex_iff list_all_iff)
  then show ?thesis using a2b_b64encode [of bs 0 0 "[]"] by simp
qed

text \<open>
  What \<open>store_encrypted_log\<close> leaves: the copy with its timestamp as a new
  object, and one more entry in the log, made of twelve bytes of the random
  source and of the cipher's output for them and the serialized copy. Both
  fields decode to the bytes they were made from.
\<close>

lemma length_os_urandom: "length (os_urandom src n) = n"
  by (simp add: os_urandom_def)

lemma store_encrypted_log_entry:
  "store_encrypted_log jd en st src p h lg =
     (h @ [setdefault (h ! p) ''stored_at'' (PyStr st)],
      lg @ [\<lparr>nonce = b64encode (os_urandom src 12),
             ciphertext = b64encode (en (os_urandom src 12)
               (jd (setdefault (h ! p) ''stored_at'' (PyStr st))))\<rparr>])"
  by (simp add: store_encrypted_log_def new_dict_def Let_def nth_append)

lemma store_encrypted_log_nonce:
  "\<exists>e bs. snd (store_encrypted_log jd en st src p h lg) = lg @ [e] \<and>
     b64decode (PyStr (nonce e)) = Inr bs \<and> 8 * length bs = 96"
  unfolding store_encrypted_log_entry
  using b64decode_b64encode [of "os_urandom src 12"] length_os_urandom [of src 12]
  by (auto simp del: b64decode.simps)

text \<open>
  The script takes each entry through the decoder, the cipher and the JSON
  reader, and no exception is caught: an entry of the server's log gives back
  what the cipher and the reader return for its bytes, and a list is returned
  only when every entry went through, in order.
\<close>

lemma decrypt_entries_stored:
  assumes "decrypt nonce_bytes ct = Inr m" "json_loads m = Inr v"
  shows "decrypt_entries decrypt json_loads
           (entry_dict \<lparr>nonce = b64encode nonce_bytes, ciphertext = b64encode ct\<rparr> # entries) acc =
         decrypt_entries decrypt json_loads entries (acc @ [v])"
  using assms by (simp add: entry_dict_def b64decode_b64encode del: b64decode.simps)

lemma decrypt_entries_authenticated:
  "decrypt_entries dec jl es acc = Inr rs \<Longrightarrow>
   \<exists>vs. rs = acc @ vs \<and>
     list_all2 (\<lambda>entry v. \<exists>nt n ct c m. getitem entry ''nonce'' = Inr nt \<and> b64decode nt = Inr n \<and>
        getitem entry ''ciphertext'' = Inr ct \<and> b64decode ct = Inr c \<and>
        dec n c = Inr m \<and> jl m = Inr v) es vs"
proof (induction es arbitrary: acc)
  case Nil
  then show ?case by simp
next
  case (Cons entry es)
  from Cons.prems obtain nt n ct c m v where
    f: "getitem entry ''nonce'' = Inr nt" "b64decode nt = Inr n"
       "getitem entry ''ciphertext'' = Inr ct" "b64decode ct = Inr c"
       "dec n c = Inr m" "jl m = Inr v"
    and r: "decrypt_entries dec jl es (acc @ [v]) = Inr rs"
    by (simp split: sum.splits)
  from Cons.IH [OF r] obtain vs where vs: "rs = (acc @ [v]) @ vs"
    "list_all2 (\<lambda>entry v. \<exists>nt n ct c m. getitem entry ''nonce'' = Inr nt \<and> b64decode nt = Inr n \<and>
        getitem entry ''ciphertext'' = Inr ct \<and> b64decode ct = Inr c \<and>
        dec n c = Inr m \<and> jl m = Inr v) es vs"
    by blast
  show ?case
  proof (intro exI [of _ "v # vs"] conjI)
    show "rs = acc @ v # vs" using vs(1) by simp
    show "list_all2 (\<lambda>entry v. \<exists>nt n ct c m. getitem entry ''nonce'' = Inr nt \<and> b64decode nt = Inr n \<and>
        getitem entry ''ciphertext'' = Inr ct \<and> b64decode ct = Inr c \<and>
        dec n c = Inr m \<and> jl m = Inr v) (entry # es) (v # vs)"
      using f vs(2) by blast
  qed
qed

end
